theory Spec2Isabelle
  imports Main "HOL-Library.Word" "HOL-Library.Sublist"
begin

section \<open>Common types\<close>

type_synonym int64 = "64 word"

text \<open>
  Go errors are values carrying a message. \<open>Errorf\<close> stands for an error built by
  \<open>fmt.Errorf\<close> / \<open>errors.Errorf\<close> or returned by a library call;
  \<open>missingCredentials\<close> is the package-level error value that \<open>Authenticate\<close> returns.
\<close>

datatype error = Errorf string | missingCredentials

section \<open>Jobset id mapping (internal/eventapi/jobset_mapper.go)\<close>

subsection \<open>The LRU cache used by the mapper\<close>

text \<open>
  \<open>jobsetIds\<close> is a \<open>*lru.Cache\<close> (hashicorp/golang-lru): a fixed-size cache whose
  eviction list is kept most recently used first. \<open>lru.New\<close> refuses a size that is not
  positive. \<open>Get\<close> moves a found entry to the front; \<open>Add\<close> updates and moves an
  existing entry to the front, otherwise pushes a new one to the front and removes the
  oldest entry when the size is exceeded.
\<close>

record lru_Cache =
  lru_size :: nat
  evictList :: "(string \<times> int64) list"

definition lru_New :: "int \<Rightarrow> error + lru_Cache" where
  "lru_New n =
     (if n \<le> 0 then Inl (Errorf ''Must provide a positive size'')
      else Inr \<lparr>lru_size = nat n, evictList = []\<rparr>)"

definition lru_Peek :: "lru_Cache \<Rightarrow> string \<Rightarrow> int64 option" where
  "lru_Peek c k = map_of (evictList c) k"

definition lru_Get :: "lru_Cache \<Rightarrow> string \<Rightarrow> int64 option \<times> lru_Cache" where
  "lru_Get c k =
     (case map_of (evictList c) k of
        None \<Rightarrow> (None, c)
      | Some v \<Rightarrow> (Some v, c\<lparr>evictList := (k, v) # filter (\<lambda>e. fst e \<noteq> k) (evictList c)\<rparr>))"

definition lru_Add :: "lru_Cache \<Rightarrow> string \<Rightarrow> int64 \<Rightarrow> lru_Cache" where
  "lru_Add c k v =
     (case map_of (evictList c) k of
        Some old \<Rightarrow> c\<lparr>evictList := (k, v) # filter (\<lambda>e. fst e \<noteq> k) (evictList c)\<rparr>
      | None \<Rightarrow>
          (let es = (k, v) # evictList c
           in c\<lparr>evictList := (if lru_size c < length es then butlast es else es)\<rparr>))"

subsection \<open>PostgresJobsetMapper\<close>

text \<open>
  The struct holds the cache, the database handle and a mutex. The database lives
  outside the file, so \<open>eventDb.GetOrCreateJobsetId\<close> is a parameter: a function from
  the database state, the queue and the jobset to a result and the new database state.
  \<open>Get\<close> returns its result, the updated mapper and the list of database calls it made.
\<close>

record 'db PostgresJobsetMapper =
  jobsetIds :: lru_Cache
  eventDb :: 'db

type_synonym 'db GetOrCreateJobsetId = "'db \<Rightarrow> string \<Rightarrow> string \<Rightarrow> (error + int64) \<times> 'db"

definition key :: "string \<Rightarrow> string \<Rightarrow> string" where
  "key queue jobset = queue @ '':'' @ jobset"

definition Get ::
  "'db GetOrCreateJobsetId \<Rightarrow> 'db PostgresJobsetMapper \<Rightarrow> string \<Rightarrow> string
     \<Rightarrow> (error + int64) \<times> 'db PostgresJobsetMapper \<times> (string \<times> string) list" where
  "Get db j queue jobset =
     (let k = key queue jobset in
      case lru_Get (jobsetIds j) k of
        (Some v, c) \<Rightarrow> (Inr v, j\<lparr>jobsetIds := c\<rparr>, [])
      | (None, c) \<Rightarrow>
          (case db (eventDb j) queue jobset of
             (Inl err, d) \<Rightarrow> (Inl err, j\<lparr>jobsetIds := c, eventDb := d\<rparr>, [(queue, jobset)])
           | (Inr v, d) \<Rightarrow>
               (Inr v, j\<lparr>jobsetIds := lru_Add c k v, eventDb := d\<rparr>, [(queue, jobset)])))"

subsection \<open>Get as a sequence of atomic steps\<close>

text \<open>
  \<open>Get\<close> never locks \<open>mutex\<close>, so between its cache lookup, its database call and
  its cache insertion another caller's steps can run. Each of the three operations is
  atomic by itself (the cache has its own lock, the database call is one request).
  \<open>pc\<close> is the position of one caller inside \<open>Get\<close>.
\<close>

datatype pc = AtCacheGet | AtDbCall | AtCacheAdd int64 | Returned "error + int64"

definition Get_step ::
  "'db GetOrCreateJobsetId \<Rightarrow> string \<times> string \<Rightarrow> pc \<Rightarrow> 'db PostgresJobsetMapper
     \<Rightarrow> pc \<times> 'db PostgresJobsetMapper \<times> (string \<times> string) list" where
  "Get_step db req p j =
     (case p of
        AtCacheGet \<Rightarrow>
          (case lru_Get (jobsetIds j) (key (fst req) (snd req)) of
             (Some v, c) \<Rightarrow> (Returned (Inr v), j\<lparr>jobsetIds := c\<rparr>, [])
           | (None, c) \<Rightarrow> (AtDbCall, j\<lparr>jobsetIds := c\<rparr>, []))
      | AtDbCall \<Rightarrow>
          (case db (eventDb j) (fst req) (snd req) of
             (Inl err, d) \<Rightarrow> (Returned (Inl err), j\<lparr>eventDb := d\<rparr>, [req])
           | (Inr v, d) \<Rightarrow> (AtCacheAdd v, j\<lparr>eventDb := d\<rparr>, [req]))
      | AtCacheAdd v \<Rightarrow>
          (Returned (Inr v),
           j\<lparr>jobsetIds := lru_Add (jobsetIds j) (key (fst req) (snd req)) v\<rparr>, [])
      | Returned r \<Rightarrow> (Returned r, j, []))"

text \<open>
  Two callers, each inside its own call of \<open>Get\<close>, share one mapper. A schedule says
  which caller takes the next step (\<open>True\<close> the first, \<open>False\<close> the second).
\<close>

record 'db two_callers =
  pc1 :: pc
  pc2 :: pc
  shared :: "'db PostgresJobsetMapper"
  dbCalls :: "(string \<times> string) list"

fun run_schedule ::
  "'db GetOrCreateJobsetId \<Rightarrow> string \<times> string \<Rightarrow> string \<times> string \<Rightarrow> bool list
     \<Rightarrow> 'db two_callers \<Rightarrow> 'db two_callers" where
  "run_schedule db req1 req2 [] s = s"
| "run_schedule db req1 req2 (first # sched) s =
     (if first then
        (case Get_step db req1 (pc1 s) (shared s) of
           (p, j, calls) \<Rightarrow>
             run_schedule db req1 req2 sched
               (s\<lparr>pc1 := p, shared := j, dbCalls := dbCalls s @ calls\<rparr>))
      else
        (case Get_step db req2 (pc2 s) (shared s) of
           (p, j, calls) \<Rightarrow>
             run_schedule db req1 req2 sched
               (s\<lparr>pc2 := p, shared := j, dbCalls := dbCalls s @ calls\<rparr>)))"

definition start_callers :: "'db PostgresJobsetMapper \<Rightarrow> 'db two_callers" where
  "start_callers j = \<lparr>pc1 = AtCacheGet, pc2 = AtCacheGet, shared = j, dbCalls = []\<rparr>"

subsection \<open>An example database and mapper\<close>

text \<open>
  A database that keeps its jobsets in a list, creates an id for a jobset it does not
  know and fails for the queue \<open>down\<close>; and a mapper of size 2 holding two entries.
\<close>

type_synonym demo_db_state = "((string \<times> string) \<times> int64) list"

definition demo_db :: "demo_db_state GetOrCreateJobsetId" where
  "demo_db d queue jobset =
     (if queue = ''down'' then (Inl (Errorf ''connection refused''), d)
      else (case map_of d (queue, jobset) of
              Some v \<Rightarrow> (Inr v, d)
            | None \<Rightarrow> (let v = of_nat (length d) + 100 in (Inr v, d @ [((queue, jobset), v)]))))"

definition demo_mapper :: "demo_db_state PostgresJobsetMapper" where
  "demo_mapper =
     \<lparr>jobsetIds = \<lparr>lru_size = 2, evictList = [(''q:a'', 5), (''q:b'', 6)]\<rparr>, eventDb = []\<rparr>"

section \<open>Kubernetes-native authentication (package authorization)\<close>

subsection \<open>Strings\<close>

text \<open>
  \<open>strings.SplitN(s, sep, 2)\<close> and \<open>strings.Split(s, sep)\<close> for a separator of one
  character, and \<open>strings.Contains\<close>.
\<close>

definition SplitN2 :: "string \<Rightarrow> char \<Rightarrow> string list" where
  "SplitN2 s sep =
     (if sep \<in> set s then [takeWhile (\<lambda>c. c \<noteq> sep) s, tl (dropWhile (\<lambda>c. c \<noteq> sep) s)]
      else [s])"

fun Split :: "string \<Rightarrow> char \<Rightarrow> string list" where
  "Split [] sep = [[]]"
| "Split (c # cs) sep =
     (if c = sep then [] # Split cs sep
      else (case Split cs sep of
              [] \<Rightarrow> [[c]]
            | p # ps \<Rightarrow> (c # p) # ps))"

fun Contains :: "string \<Rightarrow> string \<Rightarrow> bool" where
  "Contains [] substr = (substr = [])"
| "Contains (c # cs) substr = (prefix substr (c # cs) \<or> Contains cs substr)"

subsection \<open>Time\<close>

text \<open>
  A \<open>time.Time\<close> without a monotonic reading is a number of seconds since January 1,
  year 1, held in an \<open>int64\<close>, and a number of nanoseconds within the second; a
  \<open>time.Duration\<close> is an \<open>int64\<close> of nanoseconds. \<open>time.Unix(sec, 0)\<close> adds the
  offset of the Unix epoch to \<open>sec\<close> in \<open>int64\<close> arithmetic, which wraps around for
  the largest values of \<open>sec\<close>. \<open>Time.After\<close> compares the seconds, then the
  nanoseconds. \<open>Time.Sub\<close> is the library's: the difference of the two instants, or the
  largest (smallest) duration when the difference does not fit.
\<close>

record Time =
  sec :: int64
  nsec :: nat

type_synonym Duration = int64

definition unixToInternal :: int64 where
  "unixToInternal = 62135596800"

definition time_Unix :: "int64 \<Rightarrow> Time" where
  "time_Unix s = \<lparr>sec = s + unixToInternal, nsec = 0\<rparr>"

definition After :: "Time \<Rightarrow> Time \<Rightarrow> bool" where
  "After t u = (sint (sec u) < sint (sec t) \<or> (sec t = sec u \<and> nsec u < nsec t))"

definition instant :: "Time \<Rightarrow> int" where
  "instant t = sint (sec t) * 1000000000 + int (nsec t)"

definition Sub :: "Time \<Rightarrow> Time \<Rightarrow> Duration" where
  "Sub t u =
     (let d = instant t - instant u in
      if d < - (2 ^ 63) then word_of_int (- (2 ^ 63))
      else if 2 ^ 63 - 1 < d then word_of_int (2 ^ 63 - 1)
      else word_of_int d)"

subsection \<open>The token cache\<close>

text \<open>
  \<open>TokenCache\<close> is a \<open>*cache.Cache\<close> (patrickmn/go-cache): every item has an
  expiration, an \<open>int64\<close> of nanoseconds since the Unix epoch, 0 meaning that the item
  never expires. \<open>Set\<close> replaces the duration 0 (\<open>DefaultExpiration\<close>) by the cache's
  default expiration and, for a positive duration, stores
  \<open>time.Now().Add(d).UnixNano()\<close>; any other duration stores 0. \<open>Get\<close> does not return
  an item whose expiration is positive and smaller than \<open>time.Now().UnixNano()\<close>.
  The cache reads the clock only through \<open>UnixNano()\<close>, so the reading \<open>now\<close> is that
  \<open>int64\<close>, and \<open>time.Now().Add(d).UnixNano()\<close> is the sum in \<open>int64\<close> arithmetic,
  which wraps around past the year 2262.
\<close>

record CacheData =
  Name :: string
  Valid :: bool

record Item =
  Object :: CacheData
  Expiration :: int64

record Cache =
  defaultExpiration :: Duration
  items :: "string \<rightharpoonup> Item"

definition cache_New :: "Duration \<Rightarrow> Cache" where
  "cache_New d = \<lparr>defaultExpiration = d, items = Map.empty\<rparr>"

definition cache_Set :: "Cache \<Rightarrow> int64 \<Rightarrow> string \<Rightarrow> CacheData \<Rightarrow> Duration \<Rightarrow> Cache" where
  "cache_Set c now k x d =
     (let d' = (if d = 0 then defaultExpiration c else d);
          e = (if 0 < sint d' then now + d' else 0)
      in c\<lparr>items := (items c)(k \<mapsto> \<lparr>Object = x, Expiration = e\<rparr>)\<rparr>)"

definition cache_Get :: "Cache \<Rightarrow> int64 \<Rightarrow> string \<Rightarrow> CacheData option" where
  "cache_Get c now k =
     (case items c k of
        None \<Rightarrow> None
      | Some it \<Rightarrow>
          (if 0 < sint (Expiration it) \<and> sint (Expiration it) < sint now then None
           else Some (Object it)))"

subsection \<open>The service and what it calls\<close>

text \<open>
  \<open>codec\<close> holds the pure library functions the service calls:
  \<open>base64.RawURLEncoding.DecodeString\<close> and \<open>json.Unmarshal\<close> into each of the three
  anonymous structs (token and ca; exp; kid). \<open>world\<close> holds what one call of
  \<open>Authenticate\<close> gets from outside: the service's \<open>Clock.Now()\<close>, the three readings of
  \<open>time.Now()\<close> (inside \<open>TokenCache.Get\<close> and \<open>TokenCache.Set\<close>, as the cache reads
  them, and in \<open>expirationTime.Sub\<close>), \<open>os.ReadFile\<close> and the \<open>TokenReviewer\<close>.
  Every function returns, besides its result, the list of its calls to the cache, the
  file system and the reviewer. The cache only ever holds \<open>CacheData\<close> values, so the
  type assertion \<open>data.(CacheData)\<close> in \<open>Authenticate\<close> always succeeds.
  \<open>strings.Split\<close> never returns an empty slice, so the first branch of
  \<open>getClusterURL\<close>, the panic of \<open>[0]\<close> on an empty slice, is never taken.
\<close>

record TokenReview =
  Authenticated :: bool
  Username :: string

record codec =
  DecodeString :: "string \<Rightarrow> error + string"
  Unmarshal_auth :: "string \<Rightarrow> error + string \<times> string"
  Unmarshal_exp :: "string \<Rightarrow> error + int64"
  Unmarshal_kid :: "string \<Rightarrow> error + string"

record world =
  Clock_Now :: Time
  now_Get :: int64
  now_Sub :: Time
  now_Set :: int64
  ReadFile :: "string \<Rightarrow> error + string"
  ReviewToken :: "string \<Rightarrow> string \<Rightarrow> string \<Rightarrow> error + TokenReview"

datatype event =
    CacheGet string
  | CacheSet string CacheData Duration
  | FileRead string
  | Review string string string

fun is_Review :: "event \<Rightarrow> bool" where
  "is_Review (Review url token ca) = True"
| "is_Review e = False"

fun is_FileRead :: "event \<Rightarrow> bool" where
  "is_FileRead (FileRead path) = True"
| "is_FileRead e = False"

record KubernetesAuthConfig =
  config_KidMappingFileLocation :: string
  config_InvalidTokenExpiry :: int64

record KubernetesNativeAuthService =
  KidMappingFileLocation :: string
  TokenCache :: Cache
  InvalidTokenExpiry :: int64

datatype Principal = StaticPrincipal string "string list"

definition NewStaticPrincipal :: "string \<Rightarrow> string list \<Rightarrow> Principal" where
  "NewStaticPrincipal name groups = StaticPrincipal name groups"

definition NewKubernetesNativeAuthService :: "KubernetesAuthConfig \<Rightarrow> KubernetesNativeAuthService" where
  "NewKubernetesNativeAuthService config =
     \<lparr>KidMappingFileLocation = config_KidMappingFileLocation config,
      TokenCache = cache_New (5 * 60 * 1000000000),
      InvalidTokenExpiry = config_InvalidTokenExpiry config\<rparr>"

definition validateKid :: "string \<Rightarrow> error option" where
  "validateKid kid =
     (if kid = [] then Some (Errorf ''kubernetes serviceaccount token KID must not be empty'')
      else if Contains kid ''../''
        then Some (Errorf ''kid appears to contain ../, this appears to be an attack'')
      else None)"

definition parseAuth :: "codec \<Rightarrow> string \<Rightarrow> error + string \<times> string" where
  "parseAuth cdc auth =
     (case DecodeString cdc auth of
        Inl err \<Rightarrow> Inl err
      | Inr jsonData \<Rightarrow>
          (case Unmarshal_auth cdc jsonData of
             Inl err \<Rightarrow> Inl err
           | Inr (token, ca64) \<Rightarrow>
               (case DecodeString cdc ca64 of
                  Inl err \<Rightarrow> Inl err
                | Inr ca \<Rightarrow> Inr (token, ca))))"

definition parseTime :: "codec \<Rightarrow> string \<Rightarrow> error + Time" where
  "parseTime cdc token =
     (let splitToken = Split token CHR ''.'' in
      if length splitToken \<noteq> 3
        then Inl (Errorf ''provided JWT token was not of the correct form, should have 3 parts'')
      else (case DecodeString cdc (splitToken ! 1) of
              Inl err \<Rightarrow> Inl err
            | Inr decoded \<Rightarrow>
                (case Unmarshal_exp cdc decoded of
                   Inl err \<Rightarrow> Inl err
                 | Inr expiry \<Rightarrow>
                     (if expiry = 0 then Inl (Errorf ''token expiry time not set'')
                      else Inr (time_Unix expiry)))))"

definition getClusterURL ::
  "codec \<Rightarrow> world \<Rightarrow> KubernetesNativeAuthService \<Rightarrow> string \<Rightarrow> (error + string) \<times> event list" where
  "getClusterURL cdc w authService token =
     (case Split token CHR ''.'' of
        [] \<Rightarrow> (Inl (Errorf ''index out of range''), [])
      | header # rest \<Rightarrow>
          (case DecodeString cdc header of
             Inl err \<Rightarrow> (Inl err, [])
           | Inr decoded \<Rightarrow>
               (case Unmarshal_kid cdc decoded of
                  Inl err \<Rightarrow> (Inl err, [])
                | Inr kid \<Rightarrow>
                    (case validateKid kid of
                       Some err \<Rightarrow> (Inl err, [])
                     | None \<Rightarrow>
                         (let path = KidMappingFileLocation authService @ kid in
                          case ReadFile w path of
                            Inl err \<Rightarrow> (Inl err, [FileRead path])
                          | Inr url \<Rightarrow> (Inr url, [FileRead path]))))))"

definition reviewToken ::
  "world \<Rightarrow> KubernetesNativeAuthService \<Rightarrow> string \<Rightarrow> string \<Rightarrow> string
     \<Rightarrow> (error + string) \<times> KubernetesNativeAuthService \<times> event list" where
  "reviewToken w authService clusterUrl token ca =
     (case ReviewToken w clusterUrl token ca of
        Inl err \<Rightarrow> (Inl err, authService, [Review clusterUrl token ca])
      | Inr result \<Rightarrow>
          (if \<not> Authenticated result then
             (Inl (Errorf ''provided token was rejected by TokenReview''),
              authService\<lparr>TokenCache :=
                cache_Set (TokenCache authService) (now_Set w) token \<lparr>Name = [], Valid = False\<rparr>
                  (InvalidTokenExpiry authService)\<rparr>,
              [Review clusterUrl token ca,
               CacheSet token \<lparr>Name = [], Valid = False\<rparr> (InvalidTokenExpiry authService)])
           else (Inr (Username result), authService, [Review clusterUrl token ca])))"

definition Authenticate ::
  "codec \<Rightarrow> world \<Rightarrow> KubernetesNativeAuthService \<Rightarrow> string
     \<Rightarrow> (error + Principal) \<times> KubernetesNativeAuthService \<times> event list" where
  "Authenticate cdc w authService authorization =
     (let authHeader = SplitN2 authorization CHR '' '' in
      if length authHeader < 2 \<or> authHeader ! 0 \<noteq> ''KubernetesAuth''
        then (Inl missingCredentials, authService, [])
      else
        (case parseAuth cdc (authHeader ! 1) of
           Inl err \<Rightarrow> (Inl missingCredentials, authService, [])
         | Inr (token, ca) \<Rightarrow>
             (case parseTime cdc token of
                Inl err \<Rightarrow> (Inl err, authService, [])
              | Inr expirationTime \<Rightarrow>
                  (if After (Clock_Now w) expirationTime
                     then (Inl (Errorf ''invalid token, expired''), authService, [])
                   else
                     (case cache_Get (TokenCache authService) (now_Get w) token of
                        Some cacheInfo \<Rightarrow>
                          (if Valid cacheInfo
                             then (Inr (NewStaticPrincipal (Name cacheInfo) [Name cacheInfo]),
                                   authService, [CacheGet token])
                           else (Inl (Errorf ''token invalid''), authService, [CacheGet token]))
                      | None \<Rightarrow>
                          (case getClusterURL cdc w authService token of
                             (Inl err, evs) \<Rightarrow> (Inl err, authService, CacheGet token # evs)
                           | (Inr url, evs) \<Rightarrow>
                               (case reviewToken w authService url token ca of
                                  (Inl err, authService', evs') \<Rightarrow>
                                    (Inl err, authService', CacheGet token # evs @ evs')
                                | (Inr name, authService', evs') \<Rightarrow>
                                    (Inr (NewStaticPrincipal name [name]),
                                     authService'\<lparr>TokenCache :=
                                       cache_Set (TokenCache authService') (now_Set w) token
                                         \<lparr>Name = name, Valid = True\<rparr>
                                         (Sub expirationTime (now_Sub w))\<rparr>,
                                     CacheGet token # evs @ evs' @
                                       [CacheSet token \<lparr>Name = name, Valid = True\<rparr>
                                          (Sub expirationTime (now_Sub w))]))))))))"

subsection \<open>Specification vocabulary and examples\<close>

definition token_kid :: "codec \<Rightarrow> string \<Rightarrow> error + string" where
  "token_kid cdc token =
     (case Split token CHR ''.'' of
        [] \<Rightarrow> Inl (Errorf ''index out of range'')
      | header # rest \<Rightarrow>
          (case DecodeString cdc header of
             Inl err \<Rightarrow> Inl err
           | Inr decoded \<Rightarrow> Unmarshal_kid cdc decoded))"

inductive reachable :: "codec \<Rightarrow> KubernetesNativeAuthService \<Rightarrow> bool" for cdc where
  reachable_New: "reachable cdc (NewKubernetesNativeAuthService config)"
| reachable_Authenticate:
    "reachable cdc s \<Longrightarrow> Authenticate cdc w s authorization = (r, s', evs) \<Longrightarrow> reachable cdc s'"

definition kid_ok :: "codec \<Rightarrow> string \<Rightarrow> bool" where
  "kid_ok cdc token = (\<exists>kid. token_kid cdc token = Inr kid \<and> validateKid kid = None)"

definition demo_decode :: "string \<Rightarrow> error + string" where
  "demo_decode s =
     (case map_of
        [(''QQ'', ''{token:h1.p1.s,ca:Y2E}''), (''QR'', ''{token:h2.p1.s,ca:Y2E}''),
         (''QS'', ''{token:h1.p2.s,ca:Y2E}''), (''Y2E'', ''ca''),
         (''h1'', ''{kid:c1}''), (''h2'', ''{kid:../etc}''),
         (''p1'', ''{exp:2000}''), (''p2'', ''{exp:1000}'')] s of
        Some d \<Rightarrow> Inr d
      | None \<Rightarrow> Inl (Errorf ''illegal base64 data''))"

definition demo_codec :: codec where
  "demo_codec =
     \<lparr>DecodeString = demo_decode,
      Unmarshal_auth = (\<lambda>s.
        case map_of
          [(''{token:h1.p1.s,ca:Y2E}'', (''h1.p1.s'', ''Y2E'')),
           (''{token:h2.p1.s,ca:Y2E}'', (''h2.p1.s'', ''Y2E'')),
           (''{token:h1.p2.s,ca:Y2E}'', (''h1.p2.s'', ''Y2E''))] s of
          Some v \<Rightarrow> Inr v
        | None \<Rightarrow> Inl (Errorf ''invalid character'')),
      Unmarshal_exp = (\<lambda>s.
        case map_of [(''{exp:2000}'', 2000), (''{exp:1000}'', 1000)] s of
          Some v \<Rightarrow> Inr v
        | None \<Rightarrow> Inl (Errorf ''invalid character'')),
      Unmarshal_kid = (\<lambda>s.
        case map_of [(''{kid:c1}'', ''c1''), (''{kid:../etc}'', ''../etc'')] s of
          Some v \<Rightarrow> Inr v
        | None \<Rightarrow> Inl (Errorf ''invalid character''))\<rparr>"

definition demo_world :: "bool \<Rightarrow> world" where
  "demo_world accept =
     \<lparr>Clock_Now = \<lparr>sec = 62135598300, nsec = 0\<rparr>, now_Get = 1500000000001,
      now_Sub = \<lparr>sec = 62135598300, nsec = 2\<rparr>, now_Set = 1500000000003,
      ReadFile = (\<lambda>path. if path = ''/kid/c1'' then Inr ''https://c1''
                          else Inl (Errorf ''no such file or directory'')),
      ReviewToken = (\<lambda>url token ca. Inr \<lparr>Authenticated = accept, Username = ''alice''\<rparr>)\<rparr>"

definition demo_later :: world where
  "demo_later = (demo_world True)\<lparr>now_Get := 1600000000000\<rparr>"

definition demo_service :: KubernetesNativeAuthService where
  "demo_service =
     NewKubernetesNativeAuthService
       \<lparr>config_KidMappingFileLocation = ''/kid/'', config_InvalidTokenExpiry = 60000000000\<rparr>"

definition demo_rejected :: KubernetesNativeAuthService where
  "demo_rejected =
     demo_service\<lparr>TokenCache :=
       cache_Set (TokenCache demo_service) 1500000000003 ''h1.p1.s'' \<lparr>Name = [], Valid = False\<rparr>
         60000000000\<rparr>"

definition demo_accepted :: KubernetesNativeAuthService where
  "demo_accepted =
     demo_service\<lparr>TokenCache :=
       cache_Set (TokenCache demo_service) 1500000000003 ''h1.p1.s''
         \<lparr>Name = ''alice'', Valid = True\<rparr> 499999999998\<rparr>"

definition zero_service :: KubernetesNativeAuthService where
  "zero_service =
     NewKubernetesNativeAuthService
       \<lparr>config_KidMappingFileLocation = ''/kid/'', config_InvalidTokenExpiry = 0\<rparr>"

definition zero_rejected :: KubernetesNativeAuthService where
  "zero_rejected =
     zero_service\<lparr>TokenCache :=
       cache_Set (TokenCache zero_service) 1500000000003 ''h1.p1.s'' \<lparr>Name = [], Valid = False\<rparr>
         0\<rparr>"

text \<open>
  The \<open>exp\<close> claim counts seconds since the Unix epoch. \<open>exp_before expiry t\<close> says
  that this instant lies before the instant \<open>t\<close>, in the integers.
\<close>

definition exp_before :: "int64 \<Rightarrow> Time \<Rightarrow> bool" where
  "exp_before expiry t \<longleftrightarrow>
     sint expiry + 62135596800 < sint (sec t)
     \<or> (sint expiry + 62135596800 = sint (sec t) \<and> 0 < nsec t)"

section \<open>Schema strings (package eventscheduler)\<close>

text \<open>
  A Go string is a sequence of bytes, and indexing and slicing count bytes.
  \<open>strings.ToLower\<close> lower-cases an all-ASCII string byte by byte; for any other string
  it returns \<open>Map(unicode.ToLower, s)\<close>, which decodes UTF-8 and encodes the mapped
  runes again, so the result can be shorter or longer than \<open>s\<close>. The Unicode tables are
  not part of the program: that mapping is the parameter \<open>unicode_lower\<close>.
\<close>

definition is_ascii :: "char \<Rightarrow> bool" where
  "is_ascii c = ((of_char c :: nat) < 128)"

definition lower_ascii :: "char \<Rightarrow> char" where
  "lower_ascii c =
     (if (65::nat) \<le> of_char c \<and> (of_char c :: nat) \<le> 90 then char_of ((of_char c :: nat) + 32)
      else c)"

definition ToLower :: "(string \<Rightarrow> string) \<Rightarrow> string \<Rightarrow> string" where
  "ToLower unicode_lower s =
     (if list_all is_ascii s then map lower_ascii s else unicode_lower s)"

text \<open>\<open>strings.Index\<close>: the index of the first instance of \<open>substr\<close>, \<open>None\<close> for -1.\<close>

fun Index :: "string \<Rightarrow> string \<Rightarrow> nat option" where
  "Index [] substr = (if substr = [] then Some 0 else None)"
| "Index (c # cs) substr =
     (if prefix substr (c # cs) then Some 0 else map_option Suc (Index cs substr))"

text \<open>
  A call either returns or panics. The slice expression \<open>s[lo:hi]\<close> panics unless
  \<open>lo \<le> hi \<le> len(s)\<close>.
\<close>

datatype 'a outcome = Returns 'a | Panics string

definition slice :: "string \<Rightarrow> nat \<Rightarrow> nat \<Rightarrow> string outcome" where
  "slice s lo hi =
     (if hi \<le> length s \<and> lo \<le> hi then Returns (take (hi - lo) (drop lo s))
      else Panics ''slice bounds out of range'')"

definition schemaFromString ::
  "(string \<Rightarrow> string) \<Rightarrow> string \<Rightarrow> string \<Rightarrow> (error + string) outcome" where
  "schemaFromString unicode_lower s tableName =
     (let sl = ToLower unicode_lower s in
      case Index sl (''create table '' @ tableName) of
        None \<Rightarrow> Returns (Inl (Errorf (''could not find table '' @ tableName)))
      | Some i \<Rightarrow>
          (let sl = drop i sl in
           case Index sl ''('' of
             None \<Rightarrow>
               Returns (Inl (Errorf (''could not read schema for table '' @ tableName
                                      @ '': reached EOF when searching for ('')))
           | Some j \<Rightarrow>
               (let sl = drop j sl in
                case Index sl '');'' of
                  None \<Rightarrow>
                    Returns (Inl (Errorf (''could not read schema for table '' @ tableName
                                           @ '': reached EOF when searching for );'')))
                | Some k \<Rightarrow>
                    (let k = k + length '');'' in
                     case slice s (i + j) (i + j + k - 1) of
                       Panics msg \<Rightarrow> Panics msg
                     | Returns schema \<Rightarrow> Returns (Inr schema)))))"

text \<open>
  The words of the claim: \<open>first_at s substr i\<close> says that the first instance of
  \<open>substr\<close> in \<open>s\<close> starts at index \<open>i\<close>.
\<close>

definition first_at :: "string \<Rightarrow> string \<Rightarrow> nat \<Rightarrow> bool" where
  "first_at s substr i \<longleftrightarrow>
     i \<le> length s \<and> prefix substr (drop i s) \<and> (\<forall>i'<i. \<not> prefix substr (drop i' s))"

text \<open>
  \<open>Map(unicode.ToLower, s)\<close> on strings whose only runes outside ASCII are U+212A
  (KELVIN SIGN, the bytes E2 84 AA), which \<open>unicode.ToLower\<close> maps to U+006B, the
  letter k.
\<close>

fun lower_kelvin :: "string \<Rightarrow> string" where
  "lower_kelvin (a # b # c # cs) =
     (if a = CHR 0xE2 \<and> b = CHR 0x84 \<and> c = CHR 0xAA then CHR ''k'' # lower_kelvin cs
      else lower_ascii a # lower_kelvin (b # c # cs))"
| "lower_kelvin cs = map lower_ascii cs"

definition kelvin_schema :: string where
  "kelvin_schema = [CHR 0xE2, CHR 0x84, CHR 0xAA] @ '' CREATE TABLE t (a);''"

section \<open>The executor protocol (package api, proto3)\<close>

text \<open>
  The protocol file declares messages and one service. A message is kept as its list of
  field declarations (name, number, type, and whether the declaration carries
  \<open>(gogoproto.nullable) = false\<close>), a service as its list of rpc declarations.
\<close>

datatype ptype =
    T_string | T_bytes | T_double | T_uint32 | T_int32
  | T_message string

datatype ftype = Single ptype | Repeated ptype | MapOf ptype ptype

record field =
  field_name :: string
  field_number :: nat
  field_type :: ftype
  nullable :: bool

record message =
  message_name :: string
  message_fields :: "field list"

datatype arg = Unary string | Stream string

record rpc =
  rpc_name :: string
  rpc_request :: arg
  rpc_response :: arg

abbreviation Quantity :: ptype where
  "Quantity \<equiv> T_message ''k8s.io.apimachinery.pkg.api.resource.Quantity''"

abbreviation Taint :: ptype where
  "Taint \<equiv> T_message ''k8s.io.api.core.v1.Taint''"

definition message_LeaseRequest :: message where
  "message_LeaseRequest =
     \<lparr>message_name = ''LeaseRequest'',
      message_fields =
        [\<lparr>field_name = ''cluster_id'', field_number = 1, field_type = Single T_string,
           nullable = True\<rparr>,
         \<lparr>field_name = ''pool'', field_number = 8, field_type = Single T_string,
           nullable = True\<rparr>,
         \<lparr>field_name = ''resources'', field_number = 2, field_type = MapOf T_string Quantity,
           nullable = False\<rparr>,
         \<lparr>field_name = ''cluster_leased_report'', field_number = 4,
           field_type = Single (T_message ''ClusterLeasedReport''), nullable = False\<rparr>,
         \<lparr>field_name = ''minimum_job_size'', field_number = 6,
           field_type = MapOf T_string Quantity, nullable = False\<rparr>,
         \<lparr>field_name = ''nodes'', field_number = 7,
           field_type = Repeated (T_message ''NodeInfo''), nullable = False\<rparr>]\<rparr>"

definition message_StreamingLeaseRequest :: message where
  "message_StreamingLeaseRequest =
     \<lparr>message_name = ''StreamingLeaseRequest'',
      message_fields =
        [\<lparr>field_name = ''cluster_id'', field_number = 1, field_type = Single T_string,
           nullable = True\<rparr>,
         \<lparr>field_name = ''pool'', field_number = 2, field_type = Single T_string,
           nullable = True\<rparr>,
         \<lparr>field_name = ''resources'', field_number = 3, field_type = MapOf T_string Quantity,
           nullable = False\<rparr>,
         \<lparr>field_name = ''cluster_leased_report'', field_number = 4,
           field_type = Single (T_message ''ClusterLeasedReport''), nullable = False\<rparr>,
         \<lparr>field_name = ''minimum_job_size'', field_number = 5,
           field_type = MapOf T_string Quantity, nullable = False\<rparr>,
         \<lparr>field_name = ''nodes'', field_number = 6,
           field_type = Repeated (T_message ''NodeInfo''), nullable = False\<rparr>,
         \<lparr>field_name = ''ReceivedJobIds'', field_number = 7, field_type = Repeated T_string,
           nullable = True\<rparr>]\<rparr>"

definition message_NodeInfo :: message where
  "message_NodeInfo =
     \<lparr>message_name = ''NodeInfo'',
      message_fields =
        [\<lparr>field_name = ''name'', field_number = 1, field_type = Single T_string,
           nullable = True\<rparr>,
         \<lparr>field_name = ''taints'', field_number = 2, field_type = Repeated Taint,
           nullable = False\<rparr>,
         \<lparr>field_name = ''labels'', field_number = 3, field_type = MapOf T_string T_string,
           nullable = True\<rparr>,
         \<lparr>field_name = ''allocatable_resources'', field_number = 4,
           field_type = MapOf T_string Quantity, nullable = False\<rparr>,
         \<lparr>field_name = ''available_resources'', field_number = 5,
           field_type = MapOf T_string Quantity, nullable = False\<rparr>,
         \<lparr>field_name = ''total_resources'', field_number = 6,
           field_type = MapOf T_string Quantity, nullable = False\<rparr>,
         \<lparr>field_name = ''allocated_resources'', field_number = 7,
           field_type = MapOf T_int32 (T_message ''ComputeResource''), nullable = False\<rparr>]\<rparr>"

definition message_ComputeResource :: message where
  "message_ComputeResource =
     \<lparr>message_name = ''ComputeResource'',
      message_fields =
        [\<lparr>field_name = ''resources'', field_number = 1, field_type = MapOf T_string Quantity,
           nullable = False\<rparr>]\<rparr>"

definition message_StreamingJobLease :: message where
  "message_StreamingJobLease =
     \<lparr>message_name = ''StreamingJobLease'',
      message_fields =
        [\<lparr>field_name = ''job'', field_number = 1, field_type = Single (T_message ''Job''),
           nullable = True\<rparr>,
         \<lparr>field_name = ''numJobs'', field_number = 2, field_type = Single T_uint32,
           nullable = True\<rparr>,
         \<lparr>field_name = ''numAcked'', field_number = 3, field_type = Single T_uint32,
           nullable = True\<rparr>]\<rparr>"

definition service_AggregatedQueue :: "rpc list" where
  "service_AggregatedQueue =
     [\<lparr>rpc_name = ''LeaseJobs'', rpc_request = Unary ''LeaseRequest'',
        rpc_response = Unary ''JobLease''\<rparr>,
      \<lparr>rpc_name = ''StreamingLeaseJobs'', rpc_request = Stream ''StreamingLeaseRequest'',
        rpc_response = Stream ''StreamingJobLease''\<rparr>,
      \<lparr>rpc_name = ''RenewLease'', rpc_request = Unary ''RenewLeaseRequest'',
        rpc_response = Unary ''IdList''\<rparr>,
      \<lparr>rpc_name = ''ReturnLease'', rpc_request = Unary ''ReturnLeaseRequest'',
        rpc_response = Unary ''google.protobuf.Empty''\<rparr>,
      \<lparr>rpc_name = ''ReportDone'', rpc_request = Unary ''IdList'',
        rpc_response = Unary ''IdList''\<rparr>]"

text \<open>Looking declarations up by name, and what a message carries apart from numbering.\<close>

definition rpc_signature :: "rpc list \<Rightarrow> string \<Rightarrow> (arg \<times> arg) option" where
  "rpc_signature service n =
     map_option (\<lambda>r. (rpc_request r, rpc_response r)) (find (\<lambda>r. rpc_name r = n) service)"

definition field_named :: "message \<Rightarrow> string \<Rightarrow> (ftype \<times> bool) option" where
  "field_named m n =
     map_option (\<lambda>f. (field_type f, nullable f)) (find (\<lambda>f. field_name f = n) (message_fields m))"

definition carries :: "message \<Rightarrow> (string \<times> ftype \<times> bool) list" where
  "carries m = map (\<lambda>f. (field_name f, field_type f, nullable f)) (message_fields m)"

definition fields_of_type :: "message \<Rightarrow> ftype \<Rightarrow> string list" where
  "fields_of_type m t = map field_name (filter (\<lambda>f. field_type f = t) (message_fields m))"

subsection \<open>Streaming a batch\<close>

text \<open>
  The message as the generated Go struct has it, with \<open>uint32\<close> counters. Of a
  \<open>Job\<close> only the id matters here.
\<close>

record Job =
  Job_id :: string

record StreamingJobLease =
  job :: Job
  numJobs :: "32 word"
  numAcked :: "32 word"

text \<open>
  Modelled from the spec: the Lease Session's streaming step, which fills the messages;
  the server that does it is not among the source files. Each job of the selected batch
  is sent in a message of its own, with \<open>numJobs\<close> the size of the batch, fixed when the
  batch is selected, and \<open>numAcked\<close> the number of jobs of the batch whose ids the
  executor has reported in \<open>ReceivedJobIds\<close>.
\<close>

definition stream_batch :: "Job list \<Rightarrow> string list \<Rightarrow> StreamingJobLease list" where
  "stream_batch batch receivedJobIds =
     map (\<lambda>j. \<lparr>job = j,
                 numJobs = of_nat (length batch),
                 numAcked = of_nat (length (filter (\<lambda>b. Job_id b \<in> set receivedJobIds) batch))\<rparr>)
       batch"

subsection \<open>Facts about the cache\<close>

lemma lru_Get_miss: "lru_Peek c k = None \<Longrightarrow> lru_Get c k = (None, c)"
  by (simp add: lru_Peek_def lru_Get_def)

lemma lru_Get_hit: "lru_Peek c k = Some v \<Longrightarrow> fst (lru_Get c k) = Some v"
  by (simp add: lru_Peek_def lru_Get_def)

lemma lru_Peek_Add:
  assumes "0 < lru_size c"
  shows "lru_Peek (lru_Add c k v) k = Some v"
proof (cases "map_of (evictList c) k")
  case None
  show ?thesis
  proof (cases "evictList c")
    case Nil
    with None assms show ?thesis
      by (simp add: lru_Peek_def lru_Add_def)
  next
    case (Cons e es)
    with None assms show ?thesis
      by (simp add: lru_Peek_def lru_Add_def Let_def)
  qed
next
  case (Some old)
  then show ?thesis
    by (simp add: lru_Peek_def lru_Add_def)
qed

lemma lru_New_positive: "lru_New n = Inr c \<Longrightarrow> 0 < lru_size c"
  by (auto simp: lru_New_def split: if_splits)

lemma lru_size_Get [simp]: "lru_size (snd (lru_Get c k)) = lru_size c"
  by (simp add: lru_Get_def split: option.splits)

lemma lru_size_Add [simp]: "lru_size (lru_Add c k v) = lru_size c"
  by (simp add: lru_Add_def Let_def split: option.splits)

lemma Get_keeps_size:
  "Get db j q js = (r, j', calls) \<Longrightarrow> lru_size (jobsetIds j') = lru_size (jobsetIds j)"
  by (auto simp: Get_def lru_Get_def Let_def split: option.splits sum.splits prod.splits)

subsection \<open>Claims about the mapper\<close>

text \<open>
  C4. \<open>Get\<close> answers from the cache without a database call when the key is cached. On
  a miss it calls \<open>GetOrCreateJobsetId\<close> once; when that succeeds the id is returned and
  is in the cache afterwards; when it fails the error is returned, the cache is as it was
  and the key is still a miss.
\<close>

theorem Get_cache_then_fallback:
  assumes "0 < lru_size (jobsetIds j)"
    and "Get db j q js = (r, j', calls)"
  shows "case lru_Peek (jobsetIds j) (key q js) of
           Some v \<Rightarrow> r = Inr v \<and> calls = [] \<and> eventDb j' = eventDb j
         | None \<Rightarrow>
             calls = [(q, js)] \<and>
             (case fst (db (eventDb j) q js) of
                Inr v \<Rightarrow> r = Inr v \<and> lru_Peek (jobsetIds j') (key q js) = Some v
              | Inl e \<Rightarrow> r = Inl e \<and> jobsetIds j' = jobsetIds j
                          \<and> lru_Peek (jobsetIds j') (key q js) = None)"
proof (cases "lru_Peek (jobsetIds j) (key q js)")
  case (Some v)
  then have "map_of (evictList (jobsetIds j)) (key q js) = Some v"
    by (simp add: lru_Peek_def)
  with assms(2) Some show ?thesis
    by (auto simp: Get_def lru_Get_def Let_def)
next
  case None
  then have miss: "lru_Get (jobsetIds j) (key q js) = (None, jobsetIds j)"
    by (rule lru_Get_miss)
  obtain res d where db: "db (eventDb j) q js = (res, d)"
    by (cases "db (eventDb j) q js")
  show ?thesis
  proof (cases res)
    case (Inl e)
    with assms(2) miss db None show ?thesis
      by (auto simp: Get_def Let_def)
  next
    case (Inr v)
    with assms(2) miss db have "r = Inr v" "calls = [(q, js)]"
      "jobsetIds j' = lru_Add (jobsetIds j) (key q js) v"
      by (auto simp: Get_def Let_def)
    with assms(1) None db Inr show ?thesis
      by (simp add: lru_Peek_Add)
  qed
qed


theorem Get_cache_then_fallback_witness:
  "0 < lru_size (jobsetIds demo_mapper)
   \<and> Get demo_db demo_mapper ''q'' ''b'' =
       (Inr 6, \<lparr>jobsetIds = \<lparr>lru_size = 2, evictList = [(''q:b'', 6), (''q:a'', 5)]\<rparr>,
                 eventDb = []\<rparr>, [])
   \<and> Get demo_db demo_mapper ''q'' ''c'' =
       (Inr 100, \<lparr>jobsetIds = \<lparr>lru_size = 2, evictList = [(''q:c'', 100), (''q:a'', 5)]\<rparr>,
                   eventDb = [((''q'', ''c''), 100)]\<rparr>, [(''q'', ''c'')])
   \<and> Get demo_db demo_mapper ''down'' ''c'' =
       (Inl (Errorf ''connection refused''), demo_mapper, [(''down'', ''c'')])"
  using
    Get_cache_then_fallback [of demo_mapper demo_db "''q''" "''b''"
      "fst (Get demo_db demo_mapper ''q'' ''b'')"
      "fst (snd (Get demo_db demo_mapper ''q'' ''b''))"
      "snd (snd (Get demo_db demo_mapper ''q'' ''b''))"]
    Get_cache_then_fallback [of demo_mapper demo_db "''q''" "''c''"
      "fst (Get demo_db demo_mapper ''q'' ''c'')"
      "fst (snd (Get demo_db demo_mapper ''q'' ''c''))"
      "snd (snd (Get demo_db demo_mapper ''q'' ''c''))"]
    Get_cache_then_fallback [of demo_mapper demo_db "''down''" "''c''"
      "fst (Get demo_db demo_mapper ''down'' ''c'')"
      "fst (snd (Get demo_db demo_mapper ''down'' ''c''))"
      "snd (snd (Get demo_db demo_mapper ''down'' ''c''))"]
  by (simp add: Get_def lru_Get_def lru_Add_def lru_Peek_def key_def demo_db_def
        demo_mapper_def)

text \<open>
  The step model is the function: a caller that takes its three steps without another
  caller in between does what \<open>Get\<close> does, with the same result, mapper and database
  calls.
\<close>

lemma run_schedule_alone:
  "run_schedule db (q, js) req2 [True, True, True] (start_callers j) =
     (case Get db j q js of
        (r, j', calls) \<Rightarrow> \<lparr>pc1 = Returned r, pc2 = AtCacheGet, shared = j', dbCalls = calls\<rparr>)"
proof (cases "lru_Get (jobsetIds j) (key q js)")
  case (Pair found c)
  show ?thesis
  proof (cases found)
    case (Some v)
    with Pair show ?thesis
      by (simp add: start_callers_def Get_step_def Get_def)
  next
    case None
    obtain res d where db: "db (eventDb j) q js = (res, d)"
      by (cases "db (eventDb j) q js")
    show ?thesis
    proof (cases res)
      case (Inl e)
      with Pair None db show ?thesis
        by (simp add: start_callers_def Get_step_def Get_def)
    next
      case (Inr v)
      with Pair None db show ?thesis
        by (simp add: start_callers_def Get_step_def Get_def)
    qed
  qed
qed

text \<open>
  C5. The mutex declared in the struct is never locked by \<open>Get\<close>. Two callers that miss
  on the same key, with their steps interleaved, each call the database: the fallback
  runs twice for the one key. Run one after the other, the second caller finds the id in
  the cache and the fallback runs once.
\<close>

theorem Get_concurrent_miss_calls_db_twice:
  "dbCalls (run_schedule demo_db (''q'', ''c'') (''q'', ''c'')
              [True, False, True, False, True, False] (start_callers demo_mapper)) =
     [(''q'', ''c''), (''q'', ''c'')]
   \<and> dbCalls (run_schedule demo_db (''q'', ''c'') (''q'', ''c'')
                [True, True, True, False, False, False] (start_callers demo_mapper)) =
     [(''q'', ''c'')]"
  by (simp add: start_callers_def Get_step_def lru_Get_def lru_Add_def key_def demo_db_def
        demo_mapper_def)

section \<open>Facts about authentication\<close>

lemma Authenticate_to_cache:
  assumes "SplitN2 authorization CHR '' '' = [''KubernetesAuth'', a]"
    and "parseAuth cdc a = Inr (token, ca)"
    and "parseTime cdc token = Inr expirationTime"
    and "\<not> After (Clock_Now w) expirationTime"
  shows "Authenticate cdc w s authorization =
     (case cache_Get (TokenCache s) (now_Get w) token of
        Some cacheInfo \<Rightarrow>
          (if Valid cacheInfo
             then (Inr (StaticPrincipal (Name cacheInfo) [Name cacheInfo]), s, [CacheGet token])
           else (Inl (Errorf ''token invalid''), s, [CacheGet token]))
      | None \<Rightarrow>
          (case getClusterURL cdc w s token of
             (Inl err, evs) \<Rightarrow> (Inl err, s, CacheGet token # evs)
           | (Inr url, evs) \<Rightarrow>
               (case reviewToken w s url token ca of
                  (Inl err, s', evs') \<Rightarrow> (Inl err, s', CacheGet token # evs @ evs')
                | (Inr name, s', evs') \<Rightarrow>
                    (Inr (StaticPrincipal name [name]),
                     s'\<lparr>TokenCache :=
                       cache_Set (TokenCache s') (now_Set w) token \<lparr>Name = name, Valid = True\<rparr>
                         (Sub expirationTime (now_Sub w))\<rparr>,
                     CacheGet token # evs @ evs' @
                       [CacheSet token \<lparr>Name = name, Valid = True\<rparr>
                          (Sub expirationTime (now_Sub w))]))))"
  unfolding Authenticate_def NewStaticPrincipal_def using assms by simp

lemma Authenticate_hit:
  assumes "SplitN2 authorization CHR '' '' = [''KubernetesAuth'', a]"
    and "parseAuth cdc a = Inr (token, ca)"
    and "parseTime cdc token = Inr expirationTime"
    and "\<not> After (Clock_Now w) expirationTime"
    and "cache_Get (TokenCache s) (now_Get w) token = Some cacheInfo"
  shows "Authenticate cdc w s authorization =
     ((if Valid cacheInfo then Inr (StaticPrincipal (Name cacheInfo) [Name cacheInfo])
       else Inl (Errorf ''token invalid'')), s, [CacheGet token])"
  using assms by (simp add: Authenticate_to_cache)

lemma Authenticate_miss_reviewed:
  assumes "SplitN2 authorization CHR '' '' = [''KubernetesAuth'', a]"
    and "parseAuth cdc a = Inr (token, ca)"
    and "parseTime cdc token = Inr expirationTime"
    and "\<not> After (Clock_Now w) expirationTime"
    and "cache_Get (TokenCache s) (now_Get w) token = None"
    and "getClusterURL cdc w s token = (Inr url, fevs)"
    and "ReviewToken w url token ca = Inr result"
  shows "Authenticate cdc w s authorization =
     (if Authenticated result then
        (Inr (StaticPrincipal (Username result) [Username result]),
         s\<lparr>TokenCache :=
            cache_Set (TokenCache s) (now_Set w) token \<lparr>Name = Username result, Valid = True\<rparr>
              (Sub expirationTime (now_Sub w))\<rparr>,
         CacheGet token # fevs @
           [Review url token ca,
            CacheSet token \<lparr>Name = Username result, Valid = True\<rparr> (Sub expirationTime (now_Sub w))])
      else
        (Inl (Errorf ''provided token was rejected by TokenReview''),
         s\<lparr>TokenCache :=
            cache_Set (TokenCache s) (now_Set w) token \<lparr>Name = [], Valid = False\<rparr>
              (InvalidTokenExpiry s)\<rparr>,
         CacheGet token # fevs @
           [Review url token ca,
            CacheSet token \<lparr>Name = [], Valid = False\<rparr> (InvalidTokenExpiry s)]))"
  using assms by (simp add: Authenticate_to_cache reviewToken_def)

lemma cache_Get_Set:
  "cache_Get (cache_Set c t0 k x d) t k =
     (let d' = (if d = 0 then defaultExpiration c else d)
      in if 0 < sint d' \<and> 0 < sint (t0 + d') \<and> sint (t0 + d') < sint t then None else Some x)"
  by (simp add: cache_Get_def cache_Set_def Let_def)

lemma sint_add_exact:
  fixes a b :: int64
  assumes "- (2 ^ 63) \<le> sint a + sint b" and "sint a + sint b < 2 ^ 63"
  shows "sint (a + b) = sint a + sint b"
  using assms by (simp add: sint_word_ariths signed_take_bit_int_eq_self)

lemma time_Unix_no_wrap:
  assumes "exp_before expiry t"
  shows "sint (sec (time_Unix expiry)) = sint expiry + 62135596800"
proof -
  have "sint (sec t) < 2 ^ 63" using sint_lt [of "sec t"] by simp
  with assms have up: "sint expiry + 62135596800 < 2 ^ 63"
    by (auto simp: exp_before_def)
  have "- (2 ^ 63) \<le> sint expiry" using sint_ge [of expiry] by simp
  then have lo: "- (2 ^ 63) \<le> sint expiry + 62135596800" by simp
  have u: "sint unixToInternal = 62135596800" by (simp add: unixToInternal_def)
  from lo up u show ?thesis
    by (simp add: time_Unix_def sint_add_exact)
qed

lemma exp_before_After:
  assumes "exp_before expiry t"
  shows "After t (time_Unix expiry)"
proof -
  note s = time_Unix_no_wrap [OF assms]
  from assms consider "sint expiry + 62135596800 < sint (sec t)"
    | "sint expiry + 62135596800 = sint (sec t)" "0 < nsec t"
    by (auto simp: exp_before_def)
  then show ?thesis
  proof cases
    case 1
    with s show ?thesis by (simp add: After_def)
  next
    case 2
    with s have "sint (sec (time_Unix expiry)) = sint (sec t)" by simp
    then have "sec (time_Unix expiry) = sec t" by (rule signed_word_eqI)
    with 2 show ?thesis by (simp add: After_def time_Unix_def)
  qed
qed


lemma Split_not_Nil: "Split s sep \<noteq> []"
  by (induction s) (auto split: list.splits)

lemma getClusterURL_bad_kid:
  assumes "token_kid cdc token = Inr kid" and "validateKid kid = Some err"
  shows "getClusterURL cdc w s token = (Inl err, [])"
  using assms
  by (auto simp: token_kid_def getClusterURL_def split: list.splits sum.splits)

lemma getClusterURL_Inr_kid:
  assumes "getClusterURL cdc w s token = (Inr url, evs)"
  shows "\<exists>kid. token_kid cdc token = Inr kid \<and> validateKid kid = None"
  using assms
  by (auto simp: token_kid_def getClusterURL_def Let_def split: list.splits sum.splits option.splits)

lemma reviewToken_cache:
  assumes "reviewToken w s url token ca = (r, s', evs)"
  shows "s' = s \<or> (\<exists>x d. s' = s\<lparr>TokenCache := cache_Set (TokenCache s) (now_Set w) token x d\<rparr>)"
  using assms
  by (auto simp: reviewToken_def split: sum.splits if_splits)

lemma Authenticate_cache:
  assumes "Authenticate cdc w s authorization = (r, s', evs)"
  shows "s' = s \<or>
         (\<exists>token. kid_ok cdc token \<and> KidMappingFileLocation s' = KidMappingFileLocation s
            \<and> InvalidTokenExpiry s' = InvalidTokenExpiry s
            \<and> defaultExpiration (TokenCache s') = defaultExpiration (TokenCache s)
            \<and> (\<forall>k. k \<noteq> token \<longrightarrow> items (TokenCache s') k = items (TokenCache s) k))"
proof (cases "length (SplitN2 authorization CHR '' '') < 2
              \<or> SplitN2 authorization CHR '' '' ! 0 \<noteq> ''KubernetesAuth''")
  case True
  with assms show ?thesis by (simp add: Authenticate_def)
next
  case hdr: False
  show ?thesis
  proof (cases "parseAuth cdc (SplitN2 authorization CHR '' '' ! 1)")
    case (Inl e)
    with assms hdr show ?thesis by (simp add: Authenticate_def)
  next
    case (Inr tc)
    obtain token ca where tc: "tc = (token, ca)" by (cases tc)
    show ?thesis
    proof (cases "parseTime cdc token")
      case (Inl e)
      with assms hdr Inr tc show ?thesis by (simp add: Authenticate_def)
    next
      case pt: (Inr expirationTime)
      show ?thesis
      proof (cases "After (Clock_Now w) expirationTime")
        case True
        with assms hdr Inr tc pt show ?thesis by (simp add: Authenticate_def)
      next
        case live: False
        show ?thesis
        proof (cases "cache_Get (TokenCache s) (now_Get w) token")
          case (Some cacheInfo)
          with assms hdr Inr tc pt live show ?thesis
            by (simp add: Authenticate_def split: if_splits)
        next
          case None
          obtain ur fevs where gu: "getClusterURL cdc w s token = (ur, fevs)"
            by (cases "getClusterURL cdc w s token")
          show ?thesis
          proof (cases ur)
            case (Inl e)
            with assms hdr Inr tc pt live None gu show ?thesis
              by (simp add: Authenticate_def)
          next
            case url: (Inr url)
            from gu url have ok: "kid_ok cdc token"
              unfolding kid_ok_def by (auto dest: getClusterURL_Inr_kid)
            obtain rr s1 evs1 where rt: "reviewToken w s url token ca = (rr, s1, evs1)"
              by (cases "reviewToken w s url token ca")
            from reviewToken_cache [OF rt]
            have s1: "s1 = s \<or>
              (\<exists>x d. s1 = s\<lparr>TokenCache := cache_Set (TokenCache s) (now_Set w) token x d\<rparr>)" .
            have "s' = s1 \<or>
              (\<exists>x d. s' = s1\<lparr>TokenCache := cache_Set (TokenCache s1) (now_Set w) token x d\<rparr>)"
              using assms hdr Inr tc pt live None gu url rt
              by (cases rr) (auto simp: Authenticate_def)
            with s1 have "KidMappingFileLocation s' = KidMappingFileLocation s
                \<and> InvalidTokenExpiry s' = InvalidTokenExpiry s
                \<and> defaultExpiration (TokenCache s') = defaultExpiration (TokenCache s)
                \<and> (\<forall>k. k \<noteq> token \<longrightarrow> items (TokenCache s') k = items (TokenCache s) k)"
              by (auto simp: cache_Set_def Let_def)
            with ok show ?thesis by blast
          qed
        qed
      qed
    qed
  qed
qed

lemma reachable_kid_ok:
  assumes "reachable cdc s"
  shows "items (TokenCache s) token = Some it \<Longrightarrow> kid_ok cdc token"
  using assms
proof (induction arbitrary: token it)
  case (reachable_New config)
  then show ?case
    by (simp add: NewKubernetesNativeAuthService_def cache_New_def)
next
  case (reachable_Authenticate s w authorization r s' evs)
  from Authenticate_cache [OF reachable_Authenticate.hyps(2)]
  show ?case
  proof
    assume "s' = s"
    with reachable_Authenticate show ?thesis by blast
  next
    assume "\<exists>tok. kid_ok cdc tok \<and> KidMappingFileLocation s' = KidMappingFileLocation s
            \<and> InvalidTokenExpiry s' = InvalidTokenExpiry s
            \<and> defaultExpiration (TokenCache s') = defaultExpiration (TokenCache s)
            \<and> (\<forall>k. k \<noteq> tok \<longrightarrow> items (TokenCache s') k = items (TokenCache s) k)"
    then obtain tok where tok: "kid_ok cdc tok"
      "\<forall>k. k \<noteq> tok \<longrightarrow> items (TokenCache s') k = items (TokenCache s) k" by blast
    show ?thesis
    proof (cases "token = tok")
      case True
      with tok show ?thesis by simp
    next
      case False
      with tok reachable_Authenticate.prems have "items (TokenCache s) token = Some it" by simp
      then show ?thesis by (rule reachable_Authenticate.IH)
    qed
  qed
qed

text \<open>
  What the cache answers for an entry stored by \<open>Set\<close> with the duration \<open>d\<close> at the
  reading \<open>t0\<close>, when it is read at \<open>t\<close>.
\<close>

lemma stored_never_expires:
  assumes "TokenCache s1 = cache_Set c t0 token x d" and "sint d < 0"
  shows "cache_Get (TokenCache s1) t token = Some x"
proof -
  from assms(2) have "d \<noteq> 0" by auto
  with assms show ?thesis by (simp add: cache_Get_Set)
qed

lemma stored_lifetime:
  assumes "TokenCache s1 = cache_Set c t0 token x d"
    and "0 < sint d" and "0 < sint t0" and "sint t0 + sint d < 2 ^ 63"
  shows "cache_Get (TokenCache s1) t token =
           (if sint t \<le> sint t0 + sint d then Some x else None)"
proof -
  from assms(2) have nz: "d \<noteq> 0" by auto
  from assms(2-4) have "sint (t0 + d) = sint t0 + sint d"
    by (intro sint_add_exact) simp_all
  with assms(1-3) nz show ?thesis by (auto simp: cache_Get_Set)
qed

lemma stored_default_lifetime:
  assumes "TokenCache s1 = cache_Set c t0 token x 0"
    and "0 < sint (defaultExpiration c)" and "0 < sint t0"
    and "sint t0 + sint (defaultExpiration c) < 2 ^ 63"
  shows "cache_Get (TokenCache s1) t token =
           (if sint t \<le> sint t0 + sint (defaultExpiration c) then Some x else None)"
proof -
  from assms(2-4) have "sint (t0 + defaultExpiration c) = sint t0 + sint (defaultExpiration c)"
    by (intro sint_add_exact) simp_all
  with assms(1-3) show ?thesis by (auto simp: cache_Get_Set)
qed

lemma demo_header:
  "SplitN2 ''KubernetesAuth QQ'' CHR '' '' = [''KubernetesAuth'', ''QQ'']"
  "SplitN2 ''KubernetesAuth QR'' CHR '' '' = [''KubernetesAuth'', ''QR'']"
  "SplitN2 ''KubernetesAuth QS'' CHR '' '' = [''KubernetesAuth'', ''QS'']"
  by (simp_all add: SplitN2_def)

lemma demo_parseAuth:
  "parseAuth demo_codec ''QQ'' = Inr (''h1.p1.s'', ''ca'')"
  "parseAuth demo_codec ''QR'' = Inr (''h2.p1.s'', ''ca'')"
  "parseAuth demo_codec ''QS'' = Inr (''h1.p2.s'', ''ca'')"
  by (simp_all add: parseAuth_def demo_codec_def demo_decode_def)

lemma demo_parseTime:
  "parseTime demo_codec ''h1.p1.s'' = Inr (time_Unix 2000)"
  "parseTime demo_codec ''h2.p1.s'' = Inr (time_Unix 2000)"
  "parseTime demo_codec ''h1.p2.s'' = Inr (time_Unix 1000)"
  by (simp_all add: parseTime_def demo_codec_def demo_decode_def)

lemma demo_world_simps:
  "Clock_Now (demo_world b) = \<lparr>sec = 62135598300, nsec = 0\<rparr>"
  "now_Get (demo_world b) = 1500000000001"
  "now_Sub (demo_world b) = \<lparr>sec = 62135598300, nsec = 2\<rparr>"
  "now_Set (demo_world b) = 1500000000003"
  "ReadFile (demo_world b) path =
     (if path = ''/kid/c1'' then Inr ''https://c1'' else Inl (Errorf ''no such file or directory''))"
  "ReviewToken (demo_world b) url token ca = Inr \<lparr>Authenticated = b, Username = ''alice''\<rparr>"
  by (simp_all add: demo_world_def)

lemma demo_service_simps:
  "KidMappingFileLocation demo_service = ''/kid/''"
  "InvalidTokenExpiry demo_service = 60000000000"
  "TokenCache demo_service = cache_New 300000000000"
  by (simp_all add: demo_service_def NewKubernetesNativeAuthService_def)

lemma demo_getClusterURL:
  "KidMappingFileLocation s = ''/kid/'' \<Longrightarrow>
   getClusterURL demo_codec (demo_world b) s ''h1.p1.s'' = (Inr ''https://c1'', [FileRead ''/kid/c1''])"
  by (simp add: getClusterURL_def demo_codec_def demo_decode_def demo_world_simps validateKid_def)

lemma demo_later_simps:
  "Clock_Now demo_later = \<lparr>sec = 62135598300, nsec = 0\<rparr>"
  "now_Get demo_later = 1600000000000"
  by (simp_all add: demo_later_def demo_world_def)

lemma zero_service_simps:
  "KidMappingFileLocation zero_service = ''/kid/''"
  "InvalidTokenExpiry zero_service = 0"
  "TokenCache zero_service = cache_New 300000000000"
  by (simp_all add: zero_service_def NewKubernetesNativeAuthService_def)

lemma demo_live:
  "\<not> After \<lparr>sec = 62135598300, nsec = 0\<rparr> (time_Unix 2000)"
  "\<not> After (Clock_Now (demo_world b)) (time_Unix 2000)"
  "\<not> After (Clock_Now demo_later) (time_Unix 2000)"
  by (simp_all add: After_def time_Unix_def unixToInternal_def demo_world_simps demo_later_simps)

lemma demo_Sub:
  "Sub (time_Unix 2000) \<lparr>sec = 62135598300, nsec = 2\<rparr> = 499999999998"
  "Sub (time_Unix 2000) (now_Sub (demo_world b)) = 499999999998"
  by (simp_all add: Sub_def instant_def time_Unix_def unixToInternal_def demo_world_simps)

lemma demo_run_rejected:
  "Authenticate demo_codec (demo_world False) demo_service ''KubernetesAuth QQ'' =
     (Inl (Errorf ''provided token was rejected by TokenReview''), demo_rejected,
      [CacheGet ''h1.p1.s'', FileRead ''/kid/c1'', Review ''https://c1'' ''h1.p1.s'' ''ca'',
       CacheSet ''h1.p1.s'' \<lparr>Name = [], Valid = False\<rparr> 60000000000])"
  by (simp add: Authenticate_def demo_header demo_parseAuth demo_parseTime demo_getClusterURL
        reviewToken_def demo_live cache_Get_def cache_New_def demo_rejected_def
        demo_world_simps demo_service_simps)

lemma demo_run_accepted:
  "Authenticate demo_codec (demo_world True) demo_service ''KubernetesAuth QQ'' =
     (Inr (StaticPrincipal ''alice'' [''alice'']), demo_accepted,
      [CacheGet ''h1.p1.s'', FileRead ''/kid/c1'', Review ''https://c1'' ''h1.p1.s'' ''ca'',
       CacheSet ''h1.p1.s'' \<lparr>Name = ''alice'', Valid = True\<rparr> 499999999998])"
  by (simp add: Authenticate_def demo_header demo_parseAuth demo_parseTime demo_getClusterURL
        reviewToken_def demo_live demo_Sub cache_Get_def cache_New_def demo_accepted_def
        NewStaticPrincipal_def demo_world_simps demo_service_simps)

lemma zero_run_rejected:
  "Authenticate demo_codec (demo_world False) zero_service ''KubernetesAuth QQ'' =
     (Inl (Errorf ''provided token was rejected by TokenReview''), zero_rejected,
      [CacheGet ''h1.p1.s'', FileRead ''/kid/c1'', Review ''https://c1'' ''h1.p1.s'' ''ca'',
       CacheSet ''h1.p1.s'' \<lparr>Name = [], Valid = False\<rparr> 0])"
  by (simp add: Authenticate_def demo_header demo_parseAuth demo_parseTime demo_getClusterURL
        reviewToken_def demo_live cache_Get_def cache_New_def zero_rejected_def
        demo_world_simps zero_service_simps)

lemma demo_miss:
  "cache_Get (TokenCache demo_service) (now_Get (demo_world b)) ''h1.p1.s'' = None"
  "cache_Get (TokenCache zero_service) (now_Get (demo_world b)) ''h1.p1.s'' = None"
  by (simp_all add: cache_Get_def cache_New_def demo_service_simps zero_service_simps)

lemma demo_url:
  "getClusterURL demo_codec (demo_world b) demo_service ''h1.p1.s'' =
     (Inr ''https://c1'', [FileRead ''/kid/c1''])"
  "getClusterURL demo_codec (demo_world b) zero_service ''h1.p1.s'' =
     (Inr ''https://c1'', [FileRead ''/kid/c1''])"
  by (simp_all add: demo_getClusterURL demo_service_simps zero_service_simps)

text \<open>
  C3, as the code has it. A review that rejects the token stores
  \<open>CacheData{Valid: false}\<close>, one that accepts it stores \<open>CacheData{Name, Valid: true}\<close>,
  by \<open>TokenCache.Set\<close> with the duration \<open>InvalidTokenExpiry\<close>, respectively
  \<open>expirationTime.Sub(time.Now())\<close>. A positive duration is the lifetime of the entry:
  the cache answers with it up to that long after it was stored and not later (as long
  as the sum fits the cache's clock). The duration 0 gives the entry the cache's default
  lifetime, and a negative duration an entry that never expires. A later call that finds
  an entry in the cache answers from it, with the cached principal or with an error,
  and makes no other call.
\<close>

theorem Authenticate_token_cache:
  assumes "SplitN2 authorization CHR '' '' = [''KubernetesAuth'', a]"
    and "parseAuth cdc a = Inr (token, ca)"
    and "parseTime cdc token = Inr expirationTime"
    and "\<not> After (Clock_Now w1) expirationTime"
    and "cache_Get (TokenCache s) (now_Get w1) token = None"
    and "getClusterURL cdc w1 s token = (Inr url, fevs)"
    and "ReviewToken w1 url token ca = Inr result"
    and "Authenticate cdc w1 s authorization = (r1, s1, evs1)"
    and "\<not> After (Clock_Now w2) expirationTime"
    and "x = (if Authenticated result then \<lparr>Name = Username result, Valid = True\<rparr>
              else \<lparr>Name = [], Valid = False\<rparr>)"
    and "d = (if Authenticated result then Sub expirationTime (now_Sub w1)
              else InvalidTokenExpiry s)"
  shows "r1 = (if Authenticated result
               then Inr (StaticPrincipal (Username result) [Username result])
               else Inl (Errorf ''provided token was rejected by TokenReview''))
       \<and> Review url token ca \<in> set evs1
       \<and> CacheSet token x d \<in> set evs1
       \<and> TokenCache s1 = cache_Set (TokenCache s) (now_Set w1) token x d
       \<and> (0 < sint d \<and> 0 < sint (now_Set w1) \<and> sint (now_Set w1) + sint d < 2 ^ 63 \<longrightarrow>
            cache_Get (TokenCache s1) (now_Get w2) token =
              (if sint (now_Get w2) \<le> sint (now_Set w1) + sint d then Some x else None))
       \<and> (d = 0 \<and> 0 < sint (defaultExpiration (TokenCache s)) \<and> 0 < sint (now_Set w1)
            \<and> sint (now_Set w1) + sint (defaultExpiration (TokenCache s)) < 2 ^ 63 \<longrightarrow>
            cache_Get (TokenCache s1) (now_Get w2) token =
              (if sint (now_Get w2) \<le> sint (now_Set w1) + sint (defaultExpiration (TokenCache s))
               then Some x else None))
       \<and> (sint d < 0 \<longrightarrow> cache_Get (TokenCache s1) (now_Get w2) token = Some x)
       \<and> (\<forall>s0 cacheInfo. cache_Get (TokenCache s0) (now_Get w2) token = Some cacheInfo \<longrightarrow>
            Authenticate cdc w2 s0 authorization =
              ((if Valid cacheInfo
                then Inr (StaticPrincipal (Name cacheInfo) [Name cacheInfo])
                else Inl (Errorf ''token invalid'')), s0, [CacheGet token]))"
proof -
  note first = Authenticate_miss_reviewed [OF assms(1-7)]
  have r1: "r1 = (if Authenticated result
               then Inr (StaticPrincipal (Username result) [Username result])
               else Inl (Errorf ''provided token was rejected by TokenReview''))"
    using first assms(8) by (auto split: if_splits)
  have rev: "Review url token ca \<in> set evs1"
    using first assms(8) by (auto split: if_splits)
  have set_ev: "CacheSet token x d \<in> set evs1"
    using first assms(8,10,11) by (auto split: if_splits)
  have stored: "TokenCache s1 = cache_Set (TokenCache s) (now_Set w1) token x d"
    using first assms(8,10,11) by (auto split: if_splits)
  have pos: "cache_Get (TokenCache s1) (now_Get w2) token =
              (if sint (now_Get w2) \<le> sint (now_Set w1) + sint d then Some x else None)"
    if "0 < sint d \<and> 0 < sint (now_Set w1) \<and> sint (now_Set w1) + sint d < 2 ^ 63"
    using stored_lifetime [OF stored] that by blast
  have dflt: "cache_Get (TokenCache s1) (now_Get w2) token =
              (if sint (now_Get w2) \<le> sint (now_Set w1) + sint (defaultExpiration (TokenCache s))
               then Some x else None)"
    if "d = 0 \<and> 0 < sint (defaultExpiration (TokenCache s)) \<and> 0 < sint (now_Set w1)
            \<and> sint (now_Set w1) + sint (defaultExpiration (TokenCache s)) < 2 ^ 63"
    using stored_default_lifetime [of s1 "TokenCache s" "now_Set w1" token x] stored that
    by blast
  have neg: "cache_Get (TokenCache s1) (now_Get w2) token = Some x" if "sint d < 0"
    using stored that by (rule stored_never_expires)
  have hit: "Authenticate cdc w2 s0 authorization =
              ((if Valid cacheInfo
                then Inr (StaticPrincipal (Name cacheInfo) [Name cacheInfo])
                else Inl (Errorf ''token invalid'')), s0, [CacheGet token])"
    if "cache_Get (TokenCache s0) (now_Get w2) token = Some cacheInfo" for s0 cacheInfo
    using assms(1-3) assms(9) that by (rule Authenticate_hit)
  from r1 rev set_ev stored pos dflt neg hit show ?thesis by blast
qed

theorem Authenticate_token_cache_witness:
  "Authenticate demo_codec (demo_world False) demo_service ''KubernetesAuth QQ'' =
     (Inl (Errorf ''provided token was rejected by TokenReview''), demo_rejected,
      [CacheGet ''h1.p1.s'', FileRead ''/kid/c1'', Review ''https://c1'' ''h1.p1.s'' ''ca'',
       CacheSet ''h1.p1.s'' \<lparr>Name = [], Valid = False\<rparr> 60000000000])
   \<and> cache_Get (TokenCache demo_rejected) (now_Get (demo_world True)) ''h1.p1.s'' =
       Some \<lparr>Name = [], Valid = False\<rparr>
   \<and> Authenticate demo_codec (demo_world True) demo_rejected ''KubernetesAuth QQ'' =
       (Inl (Errorf ''token invalid''), demo_rejected, [CacheGet ''h1.p1.s''])
   \<and> cache_Get (TokenCache demo_rejected) (now_Get demo_later) ''h1.p1.s'' = None
   \<and> Authenticate demo_codec (demo_world True) demo_service ''KubernetesAuth QQ'' =
     (Inr (StaticPrincipal ''alice'' [''alice'']), demo_accepted,
      [CacheGet ''h1.p1.s'', FileRead ''/kid/c1'', Review ''https://c1'' ''h1.p1.s'' ''ca'',
       CacheSet ''h1.p1.s'' \<lparr>Name = ''alice'', Valid = True\<rparr> 499999999998])
   \<and> cache_Get (TokenCache demo_accepted) (now_Get demo_later) ''h1.p1.s'' =
       Some \<lparr>Name = ''alice'', Valid = True\<rparr>
   \<and> Authenticate demo_codec demo_later demo_accepted ''KubernetesAuth QQ'' =
       (Inr (StaticPrincipal ''alice'' [''alice'']), demo_accepted, [CacheGet ''h1.p1.s''])"
proof -
  note hyps = demo_header(1) demo_parseAuth(1) demo_parseTime(1)
  note rejected_soon =
    Authenticate_token_cache [OF hyps demo_live(2) demo_miss(1) demo_url(1)
      demo_world_simps(6) demo_run_rejected demo_live(2) [of True] refl refl]
  note rejected_late =
    Authenticate_token_cache [OF hyps demo_live(2) demo_miss(1) demo_url(1)
      demo_world_simps(6) demo_run_rejected demo_live(3) refl refl]
  note accepted_late =
    Authenticate_token_cache [OF hyps demo_live(2) demo_miss(1) demo_url(1)
      demo_world_simps(6) demo_run_accepted demo_live(3) refl refl]
  note lifetime = conjunct2 [THEN conjunct2, THEN conjunct2, THEN conjunct2, THEN conjunct1]
  note answered = conjunct2 [THEN conjunct2, THEN conjunct2, THEN conjunct2, THEN conjunct2,
    THEN conjunct2, THEN conjunct2]
  from rejected_soon [THEN lifetime]
  have soon: "cache_Get (TokenCache demo_rejected) (now_Get (demo_world True)) ''h1.p1.s'' =
      Some \<lparr>Name = [], Valid = False\<rparr>"
    by (simp add: demo_service_simps demo_world_simps)
  from rejected_soon [THEN answered, rule_format, OF soon]
  have again: "Authenticate demo_codec (demo_world True) demo_rejected ''KubernetesAuth QQ'' =
      (Inl (Errorf ''token invalid''), demo_rejected, [CacheGet ''h1.p1.s''])"
    by simp
  from rejected_late [THEN lifetime]
  have late: "cache_Get (TokenCache demo_rejected) (now_Get demo_later) ''h1.p1.s'' = None"
    by (simp add: demo_service_simps demo_world_simps demo_later_simps)
  from accepted_late [THEN lifetime]
  have kept: "cache_Get (TokenCache demo_accepted) (now_Get demo_later) ''h1.p1.s'' =
      Some \<lparr>Name = ''alice'', Valid = True\<rparr>"
    by (simp add: demo_service_simps demo_world_simps demo_later_simps demo_Sub)
  from accepted_late [THEN answered, rule_format, OF kept]
  have served: "Authenticate demo_codec demo_later demo_accepted ''KubernetesAuth QQ'' =
      (Inr (StaticPrincipal ''alice'' [''alice'']), demo_accepted, [CacheGet ''h1.p1.s''])"
    by simp
  from demo_run_rejected soon again late demo_run_accepted kept served
  show ?thesis by simp
qed

text \<open>
  With \<open>InvalidTokenExpiry\<close> at 0, the zero value of the configuration, the rejected
  token is stored with the duration 0 and the cache gives the entry its default lifetime
  of five minutes: a call 100 seconds later is still answered from the negative entry.
\<close>

theorem InvalidTokenExpiry_zero_counterexample:
  "InvalidTokenExpiry zero_service = 0
   \<and> Authenticate demo_codec (demo_world False) zero_service ''KubernetesAuth QQ'' =
       (Inl (Errorf ''provided token was rejected by TokenReview''), zero_rejected,
        [CacheGet ''h1.p1.s'', FileRead ''/kid/c1'', Review ''https://c1'' ''h1.p1.s'' ''ca'',
         CacheSet ''h1.p1.s'' \<lparr>Name = [], Valid = False\<rparr> 0])
   \<and> items (TokenCache zero_rejected) ''h1.p1.s'' =
       Some \<lparr>Object = \<lparr>Name = [], Valid = False\<rparr>, Expiration = 1800000000003\<rparr>
   \<and> sint (now_Get demo_later) - sint (now_Set (demo_world False)) = 99999999997
   \<and> Authenticate demo_codec demo_later zero_rejected ''KubernetesAuth QQ'' =
       (Inl (Errorf ''token invalid''), zero_rejected, [CacheGet ''h1.p1.s''])"
proof -
  have stored: "items (TokenCache zero_rejected) ''h1.p1.s'' =
       Some \<lparr>Object = \<lparr>Name = [], Valid = False\<rparr>, Expiration = 1800000000003\<rparr>"
    by (simp add: zero_rejected_def zero_service_simps cache_Set_def cache_New_def)
  have gap: "sint (now_Get demo_later) - sint (now_Set (demo_world False)) = 99999999997"
    by (simp add: demo_later_simps demo_world_simps)
  from stored
  have "cache_Get (TokenCache zero_rejected) (now_Get demo_later) ''h1.p1.s'' =
      Some \<lparr>Name = [], Valid = False\<rparr>"
    by (simp add: cache_Get_def demo_later_simps)
  from Authenticate_hit [OF demo_header(1) demo_parseAuth(1) demo_parseTime(1) demo_live(3) this]
  have again: "Authenticate demo_codec demo_later zero_rejected ''KubernetesAuth QQ'' =
       (Inl (Errorf ''token invalid''), zero_rejected, [CacheGet ''h1.p1.s''])"
    by simp
  from zero_service_simps(2) zero_run_rejected stored gap again show ?thesis by simp
qed

text \<open>
  C8. A token whose \<open>exp\<close> claim lies before the service clock's \<open>Now()\<close> makes
  \<open>Authenticate\<close> return an error with no call to the cache, the file system or the
  reviewer, and with the service, its cache included, as it was.
\<close>

theorem Authenticate_expired_token:
  assumes "SplitN2 authorization CHR '' '' = [''KubernetesAuth'', a]"
    and "parseAuth cdc a = Inr (token, ca)"
    and "Split token CHR ''.'' = [header, payload, signature]"
    and "DecodeString cdc payload = Inr decoded"
    and "Unmarshal_exp cdc decoded = Inr expiry"
    and "exp_before expiry (Clock_Now w)"
  shows "\<exists>err. Authenticate cdc w s authorization = (Inl err, s, [])"
proof (cases "expiry = 0")
  case True
  with assms(3-5) have "parseTime cdc token = Inl (Errorf ''token expiry time not set'')"
    by (simp add: parseTime_def)
  with assms(1,2) show ?thesis
    by (simp add: Authenticate_def)
next
  case False
  with assms(3-5) have "parseTime cdc token = Inr (time_Unix expiry)"
    by (simp add: parseTime_def)
  moreover from assms(6) have "After (Clock_Now w) (time_Unix expiry)"
    by (rule exp_before_After)
  ultimately show ?thesis
    using assms(1,2) by (simp add: Authenticate_def)
qed

theorem Authenticate_expired_token_witness:
  "exp_before 1000 (Clock_Now (demo_world True))
   \<and> Authenticate demo_codec (demo_world True) demo_accepted ''KubernetesAuth QS'' =
       (Inl (Errorf ''invalid token, expired''), demo_accepted, [])"
proof -
  have split: "Split ''h1.p2.s'' CHR ''.'' = [''h1'', ''p2'', ''s'']"
    by simp
  have dec: "DecodeString demo_codec ''p2'' = Inr ''{exp:1000}''"
    by (simp add: demo_codec_def demo_decode_def)
  have exp: "Unmarshal_exp demo_codec ''{exp:1000}'' = Inr 1000"
    by (simp add: demo_codec_def)
  have old: "exp_before 1000 (Clock_Now (demo_world True))"
    by (simp add: exp_before_def demo_world_simps)
  have expired: "After (Clock_Now (demo_world True)) (time_Unix 1000)"
    by (simp add: After_def time_Unix_def unixToInternal_def demo_world_simps)
  have run: "Authenticate demo_codec (demo_world True) demo_accepted ''KubernetesAuth QS'' =
      (Inl (Errorf ''invalid token, expired''), demo_accepted, [])"
    using Authenticate_expired_token [OF demo_header(3) demo_parseAuth(3) split dec exp old,
        of demo_accepted] expired
    by (simp add: Authenticate_def demo_header demo_parseAuth demo_parseTime)
  from old run show ?thesis by simp
qed

text \<open>
  C9. When the \<open>kid\<close> of the token's JOSE header is empty or contains \<open>../\<close>,
  \<open>getClusterURL\<close> returns an error and reads no file. In every state the service
  reaches from \<open>NewKubernetesNativeAuthService\<close> through calls of \<open>Authenticate\<close>, a
  call with such a token returns an error, leaves the service as it was and never calls
  the reviewer.
\<close>

theorem bad_kid_fails_before_review:
  assumes "token_kid cdc token = Inr kid"
    and "kid = [] \<or> Contains kid ''../''"
  shows "(\<exists>err. getClusterURL cdc w s token = (Inl err, []))
       \<and> (reachable cdc s
            \<and> SplitN2 authorization CHR '' '' = [''KubernetesAuth'', a]
            \<and> parseAuth cdc a = Inr (token, ca) \<longrightarrow>
          (\<exists>err evs. Authenticate cdc w s authorization = (Inl err, s, evs)
             \<and> \<not> list_ex is_Review evs \<and> \<not> list_ex is_FileRead evs))"
proof -
  from assms(2) have "\<exists>e. validateKid kid = Some e"
    by (auto simp: validateKid_def)
  then obtain e where bad: "validateKid kid = Some e" ..
  have url: "getClusterURL cdc w s token = (Inl e, [])"
    using assms(1) bad by (rule getClusterURL_bad_kid)
  have auth: "\<exists>err evs. Authenticate cdc w s authorization = (Inl err, s, evs)
             \<and> \<not> list_ex is_Review evs \<and> \<not> list_ex is_FileRead evs"
    if reach: "reachable cdc s"
      and hdr: "SplitN2 authorization CHR '' '' = [''KubernetesAuth'', a]"
      and pa: "parseAuth cdc a = Inr (token, ca)"
  proof -
    have not_ok: "\<not> kid_ok cdc token"
      using assms(1) bad by (simp add: kid_ok_def)
    have uncached: "cache_Get (TokenCache s) t token = None" for t
    proof (cases "items (TokenCache s) token")
      case None
      then show ?thesis by (simp add: cache_Get_def)
    next
      case (Some it)
      with reach have "kid_ok cdc token" by (rule reachable_kid_ok)
      with not_ok show ?thesis by simp
    qed
    show ?thesis
    proof (cases "parseTime cdc token")
      case (Inl err)
      with hdr pa show ?thesis by (simp add: Authenticate_def)
    next
      case (Inr expirationTime)
      show ?thesis
      proof (cases "After (Clock_Now w) expirationTime")
        case True
        with hdr pa Inr show ?thesis by (simp add: Authenticate_def)
      next
        case False
        from Authenticate_to_cache [OF hdr pa Inr False, of s] uncached url
        show ?thesis by simp
      qed
    qed
  qed
  from url auth show ?thesis by blast
qed

theorem bad_kid_fails_before_review_witness:
  "token_kid demo_codec ''h2.p1.s'' = Inr ''../etc''
   \<and> Contains ''../etc'' ''../''
   \<and> reachable demo_codec demo_accepted
   \<and> getClusterURL demo_codec (demo_world True) demo_accepted ''h2.p1.s'' =
       (Inl (Errorf ''kid appears to contain ../, this appears to be an attack''), [])
   \<and> Authenticate demo_codec (demo_world True) demo_accepted ''KubernetesAuth QR'' =
       (Inl (Errorf ''kid appears to contain ../, this appears to be an attack''),
        demo_accepted, [CacheGet ''h2.p1.s''])"
proof -
  have kid: "token_kid demo_codec ''h2.p1.s'' = Inr ''../etc''"
    by (simp add: token_kid_def demo_codec_def demo_decode_def)
  have bad: "''../etc'' = [] \<or> Contains ''../etc'' ''../''"
    by simp
  have reach: "reachable demo_codec demo_accepted"
    using reachable_Authenticate [OF reachable_New demo_run_accepted [unfolded demo_service_def]]
    .
  have url: "getClusterURL demo_codec (demo_world True) demo_accepted ''h2.p1.s'' =
       (Inl (Errorf ''kid appears to contain ../, this appears to be an attack''), [])"
    by (simp add: getClusterURL_def validateKid_def demo_codec_def demo_decode_def)
  have miss: "cache_Get (TokenCache demo_accepted) t ''h2.p1.s'' = None" for t
    by (simp add: demo_accepted_def cache_Get_def cache_Set_def cache_New_def demo_service_simps)
  have run: "Authenticate demo_codec (demo_world True) demo_accepted ''KubernetesAuth QR'' =
       (Inl (Errorf ''kid appears to contain ../, this appears to be an attack''),
        demo_accepted, [CacheGet ''h2.p1.s''])"
    by (simp add: Authenticate_def demo_header demo_parseAuth demo_parseTime demo_live
          miss url)
  from bad_kid_fails_before_review [OF kid bad, of "demo_world True" demo_accepted
        "''KubernetesAuth QR''" "''QR''" "''ca''"] reach demo_header(2) demo_parseAuth(2)
  have "\<exists>err evs. Authenticate demo_codec (demo_world True) demo_accepted ''KubernetesAuth QR'' =
      (Inl err, demo_accepted, evs) \<and> \<not> list_ex is_Review evs \<and> \<not> list_ex is_FileRead evs"
    by blast
  with kid bad reach url run show ?thesis by simp
qed

text \<open>
  When the difference of the two instants fits a \<open>Duration\<close>, \<open>Sub\<close> is that
  difference: the duration handed to the cache for an accepted token is the token's
  remaining lifetime.
\<close>

lemma sint_word_of_int_64:
  "- (2 ^ 63) \<le> d \<Longrightarrow> d < 2 ^ 63 \<Longrightarrow> sint (word_of_int d :: 64 word) = d"
  by (simp add: sint_sbintrunc' signed_take_bit_int_eq_self)

lemma Sub_exact:
  "- (2 ^ 63) \<le> instant t - instant u \<Longrightarrow> instant t - instant u < 2 ^ 63 \<Longrightarrow>
   sint (Sub t u) = instant t - instant u"
  using sint_word_of_int_64 [of "instant t - instant u"] by (simp add: Sub_def Let_def)

lemma Contains_iff_sublist: "Contains s substr \<longleftrightarrow> sublist substr s"
  by (induction s) (auto simp: sublist_Cons_right)

text \<open>
  The two places where \<open>int64\<close> arithmetic wraps around: an \<open>exp\<close> claim near the
  largest \<open>int64\<close> becomes an instant far in the past, so the token counts as expired;
  and an expiration past the range of \<open>UnixNano\<close> becomes negative, so the entry never
  expires.
\<close>

lemma time_Unix_wraps:
  "After \<lparr>sec = 62135598300, nsec = 0\<rparr> (time_Unix 9223372036854775807)"
  by (simp add: After_def time_Unix_def unixToInternal_def)

lemma cache_Set_wraps:
  "cache_Get (cache_Set (cache_New 300000000000) 1500000000003 k x 9223372036854775807) t k =
     Some x"
  by (simp add: cache_Get_def cache_Set_def cache_New_def)

section \<open>Facts about schema strings\<close>

lemma ToLower_ascii: "list_all is_ascii s \<Longrightarrow> ToLower u s = map lower_ascii s"
  by (simp add: ToLower_def)

lemma Index_Some_first_at: "Index s substr = Some i \<Longrightarrow> first_at s substr i"
proof (induction s arbitrary: i)
  case Nil
  then show ?case by (simp add: first_at_def split: if_splits)
next
  case (Cons c cs)
  show ?case
  proof (cases "prefix substr (c # cs)")
    case True
    with Cons.prems show ?thesis by (simp add: first_at_def)
  next
    case False
    with Cons.prems obtain i0 where i0: "Index cs substr = Some i0" "i = Suc i0"
      by auto
    from Cons.IH [OF i0(1)] have f: "first_at cs substr i0" .
    have "\<not> prefix substr (drop i' (c # cs))" if "i' < Suc i0" for i'
    proof (cases i')
      case 0
      with False show ?thesis by simp
    next
      case (Suc n)
      with that f show ?thesis by (simp add: first_at_def)
    qed
    with f i0(2) show ?thesis by (simp add: first_at_def)
  qed
qed

lemma Index_None_no_prefix: "Index s substr = None \<Longrightarrow> i \<le> length s \<Longrightarrow> \<not> prefix substr (drop i s)"
proof (induction s arbitrary: i)
  case Nil
  then show ?case by (simp split: if_splits)
next
  case (Cons c cs)
  then show ?case by (cases i) (auto split: if_splits)
qed

lemma sublist_iff_prefix_drop:
  "sublist xs ys \<longleftrightarrow> (\<exists>i\<le>length ys. prefix xs (drop i ys))"
proof
  assume "sublist xs ys"
  then obtain ps ss where "ys = ps @ xs @ ss" by (auto simp: sublist_def)
  then have "length ps \<le> length ys \<and> prefix xs (drop (length ps) ys)" by simp
  then show "\<exists>i\<le>length ys. prefix xs (drop i ys)" by blast
next
  assume "\<exists>i\<le>length ys. prefix xs (drop i ys)"
  then obtain i zs where "drop i ys = xs @ zs" by (auto simp: prefix_def)
  then have "ys = take i ys @ xs @ zs" by (metis append_take_drop_id)
  then show "sublist xs ys" by (auto simp: sublist_def)
qed

lemma Index_None_iff: "Index s substr = None \<longleftrightarrow> \<not> sublist substr s"
proof
  assume "Index s substr = None"
  then show "\<not> sublist substr s"
    by (auto simp: sublist_iff_prefix_drop dest: Index_None_no_prefix)
next
  assume no: "\<not> sublist substr s"
  show "Index s substr = None"
  proof (cases "Index s substr")
    case None
    then show ?thesis .
  next
    case (Some i)
    then have "first_at s substr i" by (rule Index_Some_first_at)
    with no show ?thesis by (auto simp: first_at_def sublist_iff_prefix_drop)
  qed
qed

lemma first_at_unique: "first_at s substr i \<Longrightarrow> first_at s substr i' \<Longrightarrow> i = i'"
  by (metis first_at_def linorder_neqE_nat)

lemma Index_Some_iff: "Index s substr = Some i \<longleftrightarrow> first_at s substr i"
proof
  assume "Index s substr = Some i"
  then show "first_at s substr i" by (rule Index_Some_first_at)
next
  assume f: "first_at s substr i"
  then have "sublist substr s" by (auto simp: first_at_def sublist_iff_prefix_drop)
  then obtain i' where i': "Index s substr = Some i'"
    using Index_None_iff [of s substr] by (cases "Index s substr") auto
  then have "first_at s substr i'" by (rule Index_Some_first_at)
  with f have "i = i'" by (rule first_at_unique)
  with i' show "Index s substr = Some i" by simp
qed

lemma first_at_exists: "sublist substr s \<Longrightarrow> \<exists>i. first_at s substr i"
  using Index_None_iff [of s substr] Index_Some_iff [of s substr]
  by (cases "Index s substr") auto

lemma schemaFromString_no_table:
  assumes "list_all is_ascii s"
    and "\<not> sublist (''create table '' @ tableName) (map lower_ascii s)"
  shows "schemaFromString u s tableName =
           Returns (Inl (Errorf (''could not find table '' @ tableName)))"
proof -
  from assms(2) have "Index (map lower_ascii s) (''create table '' @ tableName) = None"
    by (simp add: Index_None_iff)
  with assms(1) show ?thesis
    by (simp add: schemaFromString_def ToLower_ascii)
qed

lemma schemaFromString_no_open:
  assumes "list_all is_ascii s"
    and "first_at (map lower_ascii s) (''create table '' @ tableName) i"
    and "\<not> sublist ''('' (drop i (map lower_ascii s))"
  shows "schemaFromString u s tableName =
           Returns (Inl (Errorf (''could not read schema for table '' @ tableName
                                  @ '': reached EOF when searching for ('')))"
proof -
  from assms(2) have "Index (map lower_ascii s) (''create table '' @ tableName) = Some i"
    by (simp add: Index_Some_iff)
  moreover from assms(3) have "Index (drop i (map lower_ascii s)) ''('' = None"
    by (simp add: Index_None_iff)
  ultimately show ?thesis
    using assms(1) by (simp add: schemaFromString_def ToLower_ascii)
qed

lemma schemaFromString_no_close:
  assumes "list_all is_ascii s"
    and "first_at (map lower_ascii s) (''create table '' @ tableName) i"
    and "first_at (drop i (map lower_ascii s)) ''('' j"
    and "\<not> sublist '');'' (drop (i + j) (map lower_ascii s))"
  shows "schemaFromString u s tableName =
           Returns (Inl (Errorf (''could not read schema for table '' @ tableName
                                  @ '': reached EOF when searching for );'')))"
proof -
  from assms(2) have "Index (map lower_ascii s) (''create table '' @ tableName) = Some i"
    by (simp add: Index_Some_iff)
  moreover from assms(3) have "Index (drop i (map lower_ascii s)) ''('' = Some j"
    by (simp add: Index_Some_iff)
  moreover from assms(4) have "Index (drop j (drop i (map lower_ascii s))) '');'' = None"
    by (simp add: Index_None_iff add.commute)
  ultimately show ?thesis
    using assms(1) by (simp add: schemaFromString_def ToLower_ascii)
qed

lemma schemaFromString_found:
  assumes "list_all is_ascii s"
    and "first_at (map lower_ascii s) (''create table '' @ tableName) i"
    and "first_at (drop i (map lower_ascii s)) ''('' j"
    and "first_at (drop (i + j) (map lower_ascii s)) '');'' k"
  shows "schemaFromString u s tableName = Returns (Inr (take (k + 1) (drop (i + j) s)))"
proof -
  from assms(2) have i: "Index (map lower_ascii s) (''create table '' @ tableName) = Some i"
    by (simp add: Index_Some_iff)
  from assms(3) have j: "Index (drop i (map lower_ascii s)) ''('' = Some j"
    by (simp add: Index_Some_iff)
  from assms(4) have k: "Index (drop j (drop i (map lower_ascii s))) '');'' = Some k"
    by (simp add: Index_Some_iff add.commute)
  from assms(4) have "prefix '');'' (drop k (drop (i + j) (map lower_ascii s)))"
    by (simp add: first_at_def)
  then have "length '');'' \<le> length (drop k (drop (i + j) (map lower_ascii s)))"
    by (rule prefix_length_le)
  then have bound: "i + j + k + 2 \<le> length s"
    by simp
  then have "slice s (i + j) (i + j + (k + 2) - 1) = Returns (take (k + 1) (drop (i + j) s))"
    by (simp add: slice_def)
  with i j k assms(1) show ?thesis
    by (simp add: schemaFromString_def ToLower_ascii)
qed

lemma lower_ascii_punct:
  "lower_ascii c = CHR ''('' \<longleftrightarrow> c = CHR ''(''"
  "lower_ascii c = CHR '')'' \<longleftrightarrow> c = CHR '')''"
  "lower_ascii c = CHR '';'' \<longleftrightarrow> c = CHR '';''"
proof -
  have up: "char_of (of_char c + 32 :: nat) \<noteq> d"
    if "(65::nat) \<le> of_char c" "(of_char c :: nat) \<le> 90" "(of_char d :: nat) < 97" for d
  proof
    assume "char_of (of_char c + 32 :: nat) = d"
    then have "(of_char (char_of (of_char c + 32 :: nat) :: char) :: nat) = of_char d" by simp
    with that show False by (simp add: of_char_of)
  qed
  have lo: "c \<noteq> d" if "(65::nat) \<le> of_char c" "(of_char d :: nat) < 65" for d
    using that by auto
  show "lower_ascii c = CHR ''('' \<longleftrightarrow> c = CHR ''(''"
    using up [of "CHR ''(''"] lo [of "CHR ''(''"] by (auto simp: lower_ascii_def)
  show "lower_ascii c = CHR '')'' \<longleftrightarrow> c = CHR '')''"
    using up [of "CHR '')''"] lo [of "CHR '')''"] by (auto simp: lower_ascii_def)
  show "lower_ascii c = CHR '';'' \<longleftrightarrow> c = CHR '';''"
    using up [of "CHR '';''"] lo [of "CHR '';''"] by (auto simp: lower_ascii_def)
qed

lemma prefix_drop_nth1:
  assumes "prefix [c] (drop n xs)"
  shows "n < length xs \<and> xs ! n = c"
proof -
  from assms obtain zs where zs: "drop n xs = c # zs" by (auto simp: prefix_def)
  then have n: "n < length xs" by (cases "n < length xs") auto
  from zs n have "xs ! n = c" by (metis nth_via_drop)
  with n show ?thesis by simp
qed

lemma prefix_drop_nth2:
  assumes "prefix [c, d] (drop n xs)"
  shows "Suc n < length xs \<and> xs ! n = c \<and> xs ! Suc n = d"
proof -
  from assms obtain zs where zs: "drop n xs = c # d # zs" by (auto simp: prefix_def)
  then have "prefix [c] (drop n xs)" by simp
  then have c: "n < length xs \<and> xs ! n = c" by (rule prefix_drop_nth1)
  from zs have "drop (Suc n) xs = d # zs" by (metis drop_Suc tl_drop list.sel(3))
  then have "prefix [d] (drop (Suc n) xs)" by simp
  then have "Suc n < length xs \<and> xs ! Suc n = d" by (rule prefix_drop_nth1)
  with c show ?thesis by simp
qed

lemma schemaFromString_brackets:
  assumes "first_at (drop i (map lower_ascii s)) ''('' j"
    and "first_at (drop (i + j) (map lower_ascii s)) '');'' k"
  shows "s ! (i + j) = CHR ''('' \<and> s ! (i + j + k) = CHR '')'' \<and> s ! (i + j + k + 1) = CHR '';''"
proof -
  from assms(1) have "prefix ''('' (drop (i + j) (map lower_ascii s))"
    by (simp add: first_at_def add.commute)
  then have a: "i + j < length (map lower_ascii s) \<and> map lower_ascii s ! (i + j) = CHR ''(''"
    by (rule prefix_drop_nth1)
  from assms(2) have "prefix '');'' (drop (i + j + k) (map lower_ascii s))"
    by (simp add: first_at_def add.commute add.left_commute)
  then have b: "Suc (i + j + k) < length (map lower_ascii s)
      \<and> map lower_ascii s ! (i + j + k) = CHR '')''
      \<and> map lower_ascii s ! Suc (i + j + k) = CHR '';''"
    by (rule prefix_drop_nth2)
  from b have "i + j + k < length s" "Suc (i + j + k) < length s" by simp_all
  with a b show ?thesis by (simp add: lower_ascii_punct)
qed

text \<open>
  For an all-ASCII input the function does what C10 says: it returns an error exactly
  when the lower-cased input has no table header, or no \<open>(\<close> from the header on, or no
  \<open>);\<close> from that \<open>(\<close> on; otherwise it returns the bytes of the original input from
  that \<open>(\<close> up to and including the \<open>)\<close> of the first \<open>);\<close>. It never panics.
\<close>

lemma schemaFromString_ascii:
  assumes "list_all is_ascii s"
  shows "((\<exists>e. schemaFromString u s tableName = Returns (Inl e)) \<longleftrightarrow>
            \<not> sublist (''create table '' @ tableName) (map lower_ascii s)
          \<or> (\<exists>i. first_at (map lower_ascii s) (''create table '' @ tableName) i
                \<and> \<not> sublist ''('' (drop i (map lower_ascii s)))
          \<or> (\<exists>i j. first_at (map lower_ascii s) (''create table '' @ tableName) i
                \<and> first_at (drop i (map lower_ascii s)) ''('' j
                \<and> \<not> sublist '');'' (drop (i + j) (map lower_ascii s))))
       \<and> (\<forall>i j k. first_at (map lower_ascii s) (''create table '' @ tableName) i
                \<and> first_at (drop i (map lower_ascii s)) ''('' j
                \<and> first_at (drop (i + j) (map lower_ascii s)) '');'' k \<longrightarrow>
            schemaFromString u s tableName = Returns (Inr (take (k + 1) (drop (i + j) s)))
            \<and> s ! (i + j) = CHR ''('' \<and> s ! (i + j + k) = CHR '')''
            \<and> s ! (i + j + k + 1) = CHR '';'')"
    (is "(?err \<longleftrightarrow> ?A \<or> ?B \<or> ?C) \<and> ?found")
proof -
  have found: ?found
    using schemaFromString_found [OF assms] schemaFromString_brackets by blast
  have bwd: "?A \<or> ?B \<or> ?C \<Longrightarrow> ?err"
    using schemaFromString_no_table [OF assms] schemaFromString_no_open [OF assms]
      schemaFromString_no_close [OF assms] by blast
  have fwd: "?A \<or> ?B \<or> ?C" if err: ?err
  proof (rule ccontr)
    assume no: "\<not> (?A \<or> ?B \<or> ?C)"
    then have "sublist (''create table '' @ tableName) (map lower_ascii s)" by blast
    then obtain i where i: "first_at (map lower_ascii s) (''create table '' @ tableName) i"
      using first_at_exists by blast
    with no have "sublist ''('' (drop i (map lower_ascii s))" by blast
    then obtain j where j: "first_at (drop i (map lower_ascii s)) ''('' j"
      using first_at_exists by blast
    with no i have "sublist '');'' (drop (i + j) (map lower_ascii s))" by blast
    then obtain k where k: "first_at (drop (i + j) (map lower_ascii s)) '');'' k"
      using first_at_exists by blast
    from schemaFromString_found [OF assms i j k] err show False by auto
  qed
  from found bwd fwd show ?thesis by blast
qed

text \<open>
  C10. The indices are found in the lower-cased copy and used to slice the original
  string. When lower-casing changes the length of what precedes the table, here the
  three-byte Kelvin sign that becomes the one-byte letter k, the slice is shifted: no
  error is returned and the result is not the text from \<open>(\<close> to \<open>)\<close>.
\<close>

theorem schemaFromString_shifted_slice:
  "sublist ''create table t'' (ToLower lower_kelvin kelvin_schema)
   \<and> schemaFromString lower_kelvin kelvin_schema ''t'' = Returns (Inr ''t ('')
   \<and> schemaFromString lower_kelvin (''K CREATE TABLE t (a);'') ''t'' = Returns (Inr ''(a)'')"
proof -
  have low: "ToLower lower_kelvin kelvin_schema = ''k create table t (a);''"
    by code_simp
  have "''k create table t (a);'' = ''k '' @ ''create table t'' @ '' (a);''"
    by simp
  then have sub: "sublist ''create table t'' ''k create table t (a);''"
    unfolding sublist_def by blast
  have shifted: "schemaFromString lower_kelvin kelvin_schema ''t'' = Returns (Inr ''t ('')"
    by code_simp
  have plain: "schemaFromString lower_kelvin (''K CREATE TABLE t (a);'') ''t'' = Returns (Inr ''(a)'')"
    by code_simp
  from low sub shifted plain show ?thesis by simp
qed

section \<open>Claims about the protocol\<close>

text \<open>
  C1. The service has exactly five rpcs, with distinct names: \<open>LeaseJobs\<close> from a
  \<open>LeaseRequest\<close> to a \<open>JobLease\<close>, \<open>StreamingLeaseJobs\<close> from a stream of
  \<open>StreamingLeaseRequest\<close> to a stream of \<open>StreamingJobLease\<close>, \<open>RenewLease\<close> from a
  \<open>RenewLeaseRequest\<close> to an \<open>IdList\<close>, \<open>ReturnLease\<close> from a \<open>ReturnLeaseRequest\<close>
  to \<open>Empty\<close>, and \<open>ReportDone\<close> from an \<open>IdList\<close> to an \<open>IdList\<close>.
\<close>

theorem AggregatedQueue_operations:
  "length service_AggregatedQueue = 5
   \<and> distinct (map rpc_name service_AggregatedQueue)
   \<and> rpc_signature service_AggregatedQueue ''LeaseJobs'' =
       Some (Unary ''LeaseRequest'', Unary ''JobLease'')
   \<and> rpc_signature service_AggregatedQueue ''StreamingLeaseJobs'' =
       Some (Stream ''StreamingLeaseRequest'', Stream ''StreamingJobLease'')
   \<and> rpc_signature service_AggregatedQueue ''RenewLease'' =
       Some (Unary ''RenewLeaseRequest'', Unary ''IdList'')
   \<and> rpc_signature service_AggregatedQueue ''ReturnLease'' =
       Some (Unary ''ReturnLeaseRequest'', Unary ''google.protobuf.Empty'')
   \<and> rpc_signature service_AggregatedQueue ''ReportDone'' =
       Some (Unary ''IdList'', Unary ''IdList'')"
  by (simp add: service_AggregatedQueue_def rpc_signature_def)

text \<open>
  C2. \<open>LeaseRequest\<close> and \<open>StreamingLeaseRequest\<close> both carry the cluster id, the pool,
  the resource map from string to quantity, the non-nullable \<open>ClusterLeasedReport\<close>, the
  minimum job size map and the list of \<open>NodeInfo\<close>; \<open>StreamingLeaseRequest\<close> carries
  the list of received job ids besides, and \<open>LeaseRequest\<close> has no such field.
\<close>

theorem lease_request_fields:
  "carries message_LeaseRequest =
     [(''cluster_id'', Single T_string, True),
      (''pool'', Single T_string, True),
      (''resources'', MapOf T_string Quantity, False),
      (''cluster_leased_report'', Single (T_message ''ClusterLeasedReport''), False),
      (''minimum_job_size'', MapOf T_string Quantity, False),
      (''nodes'', Repeated (T_message ''NodeInfo''), False)]
   \<and> carries message_StreamingLeaseRequest =
       carries message_LeaseRequest @ [(''ReceivedJobIds'', Repeated T_string, True)]
   \<and> field_named message_LeaseRequest ''ReceivedJobIds'' = None"
  by (simp add: carries_def field_named_def message_LeaseRequest_def
        message_StreamingLeaseRequest_def)

text \<open>
  C7. \<open>NodeInfo\<close> carries a name, the taints, the labels, exactly three maps from
  resource name to quantity (allocatable, available, total) and a map from the
  \<open>int32\<close> priority to a \<open>ComputeResource\<close>, which is itself a map from resource name
  to quantity.
\<close>

theorem NodeInfo_fields:
  "map field_name (message_fields message_NodeInfo) =
     [''name'', ''taints'', ''labels'', ''allocatable_resources'', ''available_resources'',
      ''total_resources'', ''allocated_resources'']
   \<and> field_named message_NodeInfo ''name'' = Some (Single T_string, True)
   \<and> field_named message_NodeInfo ''taints'' = Some (Repeated Taint, False)
   \<and> field_named message_NodeInfo ''labels'' = Some (MapOf T_string T_string, True)
   \<and> fields_of_type message_NodeInfo (MapOf T_string Quantity) =
       [''allocatable_resources'', ''available_resources'', ''total_resources'']
   \<and> field_named message_NodeInfo ''allocated_resources'' =
       Some (MapOf T_int32 (T_message ''ComputeResource''), False)
   \<and> carries message_ComputeResource = [(''resources'', MapOf T_string Quantity, False)]"
  by (simp add: carries_def field_named_def fields_of_type_def message_NodeInfo_def
        message_ComputeResource_def)

lemma filter_all_length: "length (filter P xs) = length xs \<Longrightarrow> x \<in> set xs \<Longrightarrow> P x"
  by (metis filter_id_conv length_filter_less less_irrefl_nat)

text \<open>
  C6. A \<open>StreamingJobLease\<close> has one \<open>Job\<close> field, not repeated, and the two
  \<open>uint32\<close> counters \<open>numJobs\<close> and \<open>numAcked\<close>. In the messages of one batch
  \<open>numJobs\<close> is the size of the batch, the same in every message, and \<open>numAcked\<close> the
  number of its jobs already reported as received; when the two are equal (for a batch
  that the counter can count) every job of the batch has been reported as received.
\<close>

theorem StreamingJobLease_counters:
  "carries message_StreamingJobLease =
     [(''job'', Single (T_message ''Job''), True),
      (''numJobs'', Single T_uint32, True),
      (''numAcked'', Single T_uint32, True)]
   \<and> map job (stream_batch batch receivedJobIds) = batch
   \<and> (\<forall>m \<in> set (stream_batch batch receivedJobIds).
         numJobs m = of_nat (length batch)
         \<and> numAcked m = of_nat (length (filter (\<lambda>b. Job_id b \<in> set receivedJobIds) batch))
         \<and> (length batch < 2 ^ 32 \<and> numAcked m = numJobs m \<longrightarrow>
              (\<forall>j \<in> set batch. Job_id j \<in> set receivedJobIds)))"
proof -
  have shape: "carries message_StreamingJobLease =
     [(''job'', Single (T_message ''Job''), True),
      (''numJobs'', Single T_uint32, True),
      (''numAcked'', Single T_uint32, True)]"
    by (simp add: carries_def message_StreamingJobLease_def)
  have jobs: "map job (stream_batch batch receivedJobIds) = batch"
    by (simp add: stream_batch_def comp_def)
  let ?acked = "length (filter (\<lambda>b. Job_id b \<in> set receivedJobIds) batch)"
  have all_acked: "\<forall>j \<in> set batch. Job_id j \<in> set receivedJobIds"
    if small: "length batch < 2 ^ 32"
      and eq: "(of_nat ?acked :: 32 word) = of_nat (length batch)"
  proof -
    have le: "?acked \<le> length batch" by (rule length_filter_le)
    from le small have "?acked < 2 ^ 32" by (rule le_less_trans)
    from eq have "unat (of_nat ?acked :: 32 word) = unat (of_nat (length batch) :: 32 word)"
      by simp
    then have "?acked mod 2 ^ 32 = length batch mod 2 ^ 32"
      by (simp add: unat_of_nat)
    moreover note small \<open>?acked < 2 ^ 32\<close>
    ultimately have "?acked = length batch"
      by (metis mod_less)
    then show ?thesis
      using filter_all_length [of "\<lambda>b. Job_id b \<in> set receivedJobIds" batch] by blast
  qed
  have counters: "numJobs m = of_nat (length batch)
         \<and> numAcked m = of_nat ?acked
         \<and> (length batch < 2 ^ 32 \<and> numAcked m = numJobs m \<longrightarrow>
              (\<forall>j \<in> set batch. Job_id j \<in> set receivedJobIds))"
    if "m \<in> set (stream_batch batch receivedJobIds)" for m
  proof -
    from that obtain j where
      "m = \<lparr>job = j, numJobs = of_nat (length batch), numAcked = of_nat ?acked\<rparr>"
      unfolding stream_batch_def by auto
    then have nj: "numJobs m = of_nat (length batch)" and na: "numAcked m = of_nat ?acked"
      by simp_all
    have "\<forall>j \<in> set batch. Job_id j \<in> set receivedJobIds"
      if "length batch < 2 ^ 32 \<and> numAcked m = numJobs m"
    proof (rule all_acked)
      from that show "length batch < 2 ^ 32" ..
      from that nj na show "(of_nat ?acked :: 32 word) = of_nat (length batch)" by simp
    qed
    with nj na show ?thesis by blast
  qed
  show ?thesis
  proof (intro conjI ballI)
    show "carries message_StreamingJobLease =
     [(''job'', Single (T_message ''Job''), True),
      (''numJobs'', Single T_uint32, True),
      (''numAcked'', Single T_uint32, True)]" by (rule shape)
    show "map job (stream_batch batch receivedJobIds) = batch" by (rule jobs)
  next
    fix m assume m: "m \<in> set (stream_batch batch receivedJobIds)"
    from counters [OF m] show "numJobs m = of_nat (length batch)" by blast
    from counters [OF m] show "numAcked m = of_nat ?acked" by blast
    from counters [OF m] show "length batch < 2 ^ 32 \<and> numAcked m = numJobs m \<longrightarrow>
              (\<forall>j \<in> set batch. Job_id j \<in> set receivedJobIds)" by blast
  qed
qed

theorem StreamingJobLease_counters_witness:
  "stream_batch [\<lparr>Job_id = ''j1''\<rparr>, \<lparr>Job_id = ''j2''\<rparr>] [''j2'', ''j1''] =
     [\<lparr>job = \<lparr>Job_id = ''j1''\<rparr>, numJobs = 2, numAcked = 2\<rparr>,
      \<lparr>job = \<lparr>Job_id = ''j2''\<rparr>, numJobs = 2, numAcked = 2\<rparr>]
   \<and> length [\<lparr>Job_id = ''j1''\<rparr>, \<lparr>Job_id = ''j2''\<rparr>] < 2 ^ 32
   \<and> Job_id \<lparr>Job_id = ''j1''\<rparr> \<in> set [''j2'', ''j1'']
   \<and> Job_id \<lparr>Job_id = ''j2''\<rparr> \<in> set [''j2'', ''j1'']
   \<and> stream_batch [\<lparr>Job_id = ''j1''\<rparr>, \<lparr>Job_id = ''j2''\<rparr>] [''j1''] =
     [\<lparr>job = \<lparr>Job_id = ''j1''\<rparr>, numJobs = 2, numAcked = 1\<rparr>,
      \<lparr>job = \<lparr>Job_id = ''j2''\<rparr>, numJobs = 2, numAcked = 1\<rparr>]"
  using StreamingJobLease_counters [of "[\<lparr>Job_id = ''j1''\<rparr>, \<lparr>Job_id = ''j2''\<rparr>]" "[''j2'', ''j1'']"]
    StreamingJobLease_counters [of "[\<lparr>Job_id = ''j1''\<rparr>, \<lparr>Job_id = ''j2''\<rparr>]" "[''j1'']"]
  by (simp add: stream_batch_def)

end
